theory Spec2Isabelle
  imports Complex_Main "HOL-Library.AList" "HOL-Library.Multiset" "HOL-Library.List_Lexorder"
    "HOL-Library.Char_ord"
begin

section \<open>Python values\<close>

text \<open>
  The exceptions the program can meet. The bare \<open>except:\<close> clauses of the source catch
  every one of them, so the model only needs to tell them apart where it reports one.
\<close>

datatype error = ValueError | KeyError | NameError | ZeroDivisionError

text \<open>
  Log-probabilities are Python floats. They are idealised as real numbers, with the one
  infinite value the program produces on purpose, \<open>-INF\<close> (\<open>sum_logs([])\<close>, the
  logarithm of probability 0). Rounding is not modelled.
\<close>

datatype logval = NINF | Fin real

fun add_log :: "logval \<Rightarrow> logval \<Rightarrow> logval" where
  "add_log (Fin a) (Fin b) = Fin (a + b)"
| "add_log _ _ = NINF"

fun sub_log :: "logval \<Rightarrow> real \<Rightarrow> logval" where
  "sub_log (Fin a) s = Fin (a - s)"
| "sub_log NINF s = NINF"

fun exp2 :: "logval \<Rightarrow> real" where
  "exp2 NINF = 0"
| "exp2 (Fin x) = 2 powr x"

fun log_less :: "logval \<Rightarrow> logval \<Rightarrow> bool" where
  "log_less NINF NINF = False"
| "log_less NINF (Fin b) = True"
| "log_less (Fin a) NINF = False"
| "log_less (Fin a) (Fin b) = (a < b)"

text \<open>
  A Python \<open>dict\<close> is an association list in insertion order, the order in which
  Python enumerates a dictionary (guaranteed since Python 3.7): \<open>d[k] = v\<close> is
  \<open>AList.update k v d\<close> (it replaces the value in place, or appends the new key),
  \<open>k in d\<close> is \<open>map_of d k \<noteq> None\<close>, \<open>del d[k]\<close> is \<open>AList.delete k d\<close>, and
  \<open>d[k] += x\<close> on a key that is present is \<open>AList.map_entry k (\<lambda>y. y + x) d\<close>.
\<close>

type_synonym ('k, 'a) dict = "('k \<times> 'a) list"

section \<open>Probability distributions (nltk.probability)\<close>

text \<open>
  The interface \<open>ProbDistI\<close> the classifier is parameterised by: the samples of the
  distribution and the probability of each value.
\<close>

record 'a ProbDistI =
  samples :: "'a list"
  prob :: "'a \<Rightarrow> real"

text \<open>
  Modelled from the spec: \<open>ProbDistI.logprob\<close> belongs to nltk.probability, which is
  not under src/. Section 4.1: the base-2 logarithm of the probability, and negative
  infinity, without raising, for probability 0.
\<close>

definition logprob :: "'a ProbDistI \<Rightarrow> 'a \<Rightarrow> logval" where
  "logprob pd x = (let p = prob pd x in if p = 0 then NINF else Fin (log 2 p))"

text \<open>
  Modelled from the spec: \<open>sum_logs\<close> belongs to nltk.probability, which is not under
  src/. Section 4.3, step 4: the logarithm of the sum of the exponentials. The source
  itself records that \<open>sum_logs([])\<close> is \<open>-INF\<close> (line 134).
\<close>

definition sum_logs :: "logval list \<Rightarrow> logval" where
  "sum_logs logs =
     (let s = sum_list (map exp2 logs) in if s = 0 then NINF else Fin (log 2 s))"

text \<open>
  Modelled from the spec: \<open>DictionaryProbDist(prob_dict, normalize=True, log=True)\<close>
  belongs to nltk.probability, which is not under src/. Section 4.3, step 4: the
  log-scores are normalised into a genuine probability distribution by subtracting the
  logarithm of the sum of the exponentials. When every score is \<open>-INF\<close> the subtraction
  is undefined and the only distribution that treats the labels alike, the uniform one,
  is returned. Step 4 is silent about a table with no label at all: the model reports
  an error for it, and no statement about a model that has a label depends on that
  choice.
\<close>

definition DictionaryProbDist :: "('l, logval) dict \<Rightarrow> error + ('l, logval) dict" where
  "DictionaryProbDist prob_dict =
     (if prob_dict = [] then Inl ValueError
      else (case sum_logs (map snd prob_dict) of
              NINF \<Rightarrow>
                Inr (map (\<lambda>(x, p). (x, Fin (log 2 (1 / real (length prob_dict))))) prob_dict)
            | Fin value_sum \<Rightarrow>
                Inr (map (\<lambda>(x, p). (x, sub_log p value_sum)) prob_dict)))"


text \<open>
  Modelled from the spec: \<open>DictionaryProbDist.max\<close> belongs to nltk.probability, which
  is not under src/. Sections 2 and 4.3: the label with the maximum probability, ties
  broken by a fixed, deterministic ordering of the labels. The ordering taken here is
  the order of the labels themselves: of the labels with the maximum probability the
  greatest is returned, which is what the maximum of the pairs (probability, label)
  gives, whatever the order of the table. An empty table has no maximum.
\<close>

fun max_entry :: "('l :: linorder) \<times> logval \<Rightarrow> ('l, logval) dict \<Rightarrow> 'l" where
  "max_entry (x, p) [] = x"
| "max_entry (x, p) ((y, q) # rest) =
     (if log_less p q \<or> (p = q \<and> x < y) then max_entry (y, q) rest else max_entry (x, p) rest)"

definition dict_max :: "('l :: linorder, logval) dict \<Rightarrow> error + 'l" where
  "dict_max d = (case d of [] \<Rightarrow> Inl ValueError | e # rest \<Rightarrow> Inr (max_entry e rest))"

section \<open>The classifier\<close>

record ('l, 'f, 'v) NaiveBayesClassifier =
  label_probdist :: "'l ProbDistI"
  feature_probdist :: "('l \<times> 'f, 'v ProbDistI) dict"
  labels :: "'l list"

text \<open>\<open>__init__\<close> (lines 84-86).\<close>

definition init :: "'l ProbDistI \<Rightarrow> ('l \<times> 'f, 'v ProbDistI) dict \<Rightarrow> ('l, 'f, 'v) NaiveBayesClassifier" where
  "init lp fp = \<lparr>label_probdist = lp, feature_probdist = fp, labels = samples lp\<rparr>"

text \<open>
  The module's global variables \<open>is_frequent\<close> and \<open>frequent_probdist\<close>. A global that
  has not been assigned is \<open>None\<close>: reading it raises NameError. The main program
  assigns \<open>frequent_probdist\<close> only when \<open>normal_probability\<close> runs.
\<close>

record ('l, 'f) globals =
  is_frequent :: "('f \<rightharpoonup> bool) option"
  frequent_probdist :: "('l \<times> 'f \<rightharpoonup> real) option"

definition no_globals :: "('l, 'f) globals" where
  "no_globals = \<lparr>is_frequent = None, frequent_probdist = None\<rparr>"

text \<open>
  The body of the \<open>try\<close> (lines 122-126): the value added to \<open>logprob[label]\<close>, or the
  exception raised before anything is added. \<open>math.log(p, 2)\<close> raises ValueError for
  \<open>p \<le> 0\<close>.
\<close>

definition try_override :: "('l, 'f) globals \<Rightarrow> 'v ProbDistI \<Rightarrow> 'l \<Rightarrow> 'f \<Rightarrow> 'v \<Rightarrow> error + logval" where
  "try_override g feature_probs label fname fval =
     (case is_frequent g of
        None \<Rightarrow> Inl NameError
      | Some isf \<Rightarrow>
          (case isf fname of
             None \<Rightarrow> Inl KeyError
           | Some b \<Rightarrow>
               if b then
                 (case frequent_probdist g of
                    None \<Rightarrow> Inl NameError
                  | Some fpd \<Rightarrow>
                      (case fpd (label, fname) of
                         None \<Rightarrow> Inl KeyError
                       | Some p \<Rightarrow> if p \<le> 0 then Inl ValueError else Inr (Fin (log 2 p))))
               else Inr (logprob feature_probs fval)))"

text \<open>Lines 120-134: what one feature adds to the score of one label.\<close>

definition feature_logprob :: "('l, 'f, 'v) NaiveBayesClassifier \<Rightarrow> ('l, 'f) globals \<Rightarrow> 'l \<Rightarrow> 'f \<Rightarrow> 'v \<Rightarrow> logval" where
  "feature_logprob m g label fname fval =
     (case map_of (feature_probdist m) (label, fname) of
        Some feature_probs \<Rightarrow>
          (case try_override g feature_probs label fname fval of
             Inr x \<Rightarrow> x
           | Inl e \<Rightarrow> logprob feature_probs fval)
      | None \<Rightarrow> sum_logs [])"

text \<open>Lines 113-115.\<close>

definition init_logprob :: "('l, 'f, 'v) NaiveBayesClassifier \<Rightarrow> ('l, logval) dict" where
  "init_logprob m =
     fold (\<lambda>label lp. AList.update label (logprob (label_probdist m) label) lp) (labels m) []"

text \<open>Lines 118-134.\<close>

definition add_features :: "('l, 'f, 'v) NaiveBayesClassifier \<Rightarrow> ('l, 'f) globals \<Rightarrow> ('f, 'v) dict \<Rightarrow> ('l, logval) dict \<Rightarrow> ('l, logval) dict" where
  "add_features m g featureset lp =
     fold (\<lambda>label lp.
        fold (\<lambda>(fname, fval) lp.
           AList.map_entry label (\<lambda>x. add_log x (feature_logprob m g label fname fval)) lp)
          featureset lp)
       (labels m) lp"


text \<open>
  The feature set is a mutable object the caller shares with \<open>prob_classify\<close>, so the
  dictionaries live in a store and are named by their address (their index).
  \<open>featureset.copy()\<close> allocates a new dictionary; \<open>del featureset[fname]\<close> changes
  the dictionary at the address the local variable holds.
\<close>

type_synonym ('f, 'v) store = "('f, 'v) dict list"

definition dict_copy :: "nat \<Rightarrow> ('f, 'v) store \<Rightarrow> nat \<times> ('f, 'v) store" where
  "dict_copy a st = (length st, st @ [st ! a])"

definition dict_del :: "nat \<Rightarrow> 'f \<Rightarrow> ('f, 'v) store \<Rightarrow> ('f, 'v) store" where
  "dict_del a k st = st[a := AList.delete k (st ! a)]"

text \<open>Lines 104-106: some label has the feature name in the table.\<close>

definition seen :: "('l, 'f, 'v) NaiveBayesClassifier \<Rightarrow> 'f \<Rightarrow> bool" where
  "seen m fname = list_ex (\<lambda>label. map_of (feature_probdist m) (label, fname) \<noteq> None) (labels m)"

text \<open>Lines 103-109, on the dictionary at address \<open>a\<close>.\<close>

definition discard_unseen :: "('l, 'f, 'v) NaiveBayesClassifier \<Rightarrow> nat \<Rightarrow> ('f, 'v) store \<Rightarrow> ('f, 'v) store" where
  "discard_unseen m a st =
     fold (\<lambda>fname st. if seen m fname then st else dict_del a fname st) (map fst (st ! a)) st"

text \<open>
  \<open>prob_classify\<close> (lines 94-136), called with the address of the caller's feature set:
  the result, or the exception, and the store it leaves.
\<close>

definition prob_classify_store :: "('l, 'f, 'v) NaiveBayesClassifier \<Rightarrow> ('l, 'f) globals \<Rightarrow> nat \<Rightarrow> ('f, 'v) store \<Rightarrow> (error + ('l, logval) dict) \<times> ('f, 'v) store" where
  "prob_classify_store m g a st =
     (let (a', st1) = dict_copy a st;
          st2 = discard_unseen m a' st1;
          lp = add_features m g (st2 ! a') (init_logprob m)
      in (DictionaryProbDist lp, st2))"

text \<open>The call on a feature set given by value: a store that holds nothing else.\<close>

definition prob_classify :: "('l, 'f, 'v) NaiveBayesClassifier \<Rightarrow> ('l, 'f) globals \<Rightarrow> ('f, 'v) dict \<Rightarrow> error + ('l, logval) dict" where
  "prob_classify m g featureset = fst (prob_classify_store m g 0 [featureset])"

text \<open>\<open>classify\<close> (lines 91-92).\<close>

definition classify :: "('l :: linorder, 'f, 'v) NaiveBayesClassifier \<Rightarrow> ('l, 'f) globals \<Rightarrow> ('f, 'v) dict \<Rightarrow> error + 'l" where
  "classify m g featureset =
     (case prob_classify m g featureset of Inl e \<Rightarrow> Inl e | Inr d \<Rightarrow> dict_max d)"

section \<open>The frequency override (lines 248-280)\<close>

text \<open>
  \<open>count\<close> (lines 248-259), named \<open>count_fs\<close> here. The counters are floats. A failing lookup of
  \<open>is_frequent\<close> is caught and the feature skipped.
\<close>

definition count_step :: "('f \<rightharpoonup> bool) option \<Rightarrow> 'f \<times> 'v \<Rightarrow> real \<times> ('f \<rightharpoonup> real) \<Rightarrow> real \<times> ('f \<rightharpoonup> real)" where
  "count_step isf = (\<lambda>(fname, fval) (cnt, count_fname).
     (case isf of
        None \<Rightarrow> (cnt, count_fname)
      | Some t \<Rightarrow>
          (case t fname of
             None \<Rightarrow> (cnt, count_fname)
           | Some b \<Rightarrow>
               if b then
                 (cnt + 1,
                  count_fname(fname \<mapsto> (case count_fname fname of None \<Rightarrow> 0 | Some c \<Rightarrow> c) + 1))
               else (cnt, count_fname))))"

definition count_fs :: "('f \<rightharpoonup> bool) option \<Rightarrow> ('f, 'v) dict \<Rightarrow> real \<times> ('f \<rightharpoonup> real)" where
  "count_fs isf featureset = fold (count_step isf) featureset (0, Map.empty)"

text \<open>
  Lines 270-278: the value stored for one frequent feature name, with the two branches
  of the source written out. \<open>spam_frequent\<close> is a global of unknown element type; only
  its length is read.
\<close>

definition override_value :: "string \<Rightarrow> ('f \<rightharpoonup> real) \<Rightarrow> real \<Rightarrow> 's list option \<Rightarrow> 'f \<Rightarrow> error + real" where
  "override_value label count_fname count_frequent spam_frequent fname =
     (if label = ''spam'' then
        (case count_fname fname of
           None \<Rightarrow> Inl KeyError
         | Some numerator \<Rightarrow>
             (case spam_frequent of
                None \<Rightarrow> Inl NameError
              | Some sf \<Rightarrow>
                  (let denominator = count_frequent + real (length sf)
                   in if denominator = 0 then Inl ZeroDivisionError
                      else Inr (numerator / denominator))))
      else
        (case count_fname fname of
           None \<Rightarrow> Inl KeyError
         | Some numerator \<Rightarrow>
             (case spam_frequent of
                None \<Rightarrow> Inl NameError
              | Some sf \<Rightarrow>
                  (let denominator = count_frequent + real (length sf)
                   in if denominator = 0 then Inl ZeroDivisionError
                      else Inr (numerator / denominator)))))"

text \<open>Lines 267-280: one feature of one training example.\<close>

definition normal_probability_feature :: "('f \<rightharpoonup> bool) option \<Rightarrow> 's list option \<Rightarrow> string \<Rightarrow> real \<Rightarrow> ('f \<rightharpoonup> real) \<Rightarrow> 'f \<times> 'v \<Rightarrow> (string \<times> 'f \<rightharpoonup> real) \<Rightarrow> (string \<times> 'f \<rightharpoonup> real)" where
  "normal_probability_feature isf spam_frequent label count_frequent count_fname = (\<lambda>(fname, fval) fpd.
     (case isf of
        None \<Rightarrow> fpd
      | Some t \<Rightarrow>
          (case t fname of
             None \<Rightarrow> fpd
           | Some b \<Rightarrow>
               if b then
                 (case override_value label count_fname count_frequent spam_frequent fname of
                    Inl e \<Rightarrow> fpd
                  | Inr p \<Rightarrow> fpd((label, fname) \<mapsto> p))
               else fpd)))"

text \<open>Lines 265-280: one training example.\<close>

definition normal_probability_example :: "('f \<rightharpoonup> bool) option \<Rightarrow> 's list option \<Rightarrow> ('f, 'v) dict \<times> string \<Rightarrow> (string \<times> 'f \<rightharpoonup> real) \<Rightarrow> (string \<times> 'f \<rightharpoonup> real)" where
  "normal_probability_example isf spam_frequent = (\<lambda>(featureset, label) fpd.
     (let (count_frequent, count_fname) = count_fs isf featureset in
      fold (normal_probability_feature isf spam_frequent label count_frequent count_fname)
        featureset fpd))"

text \<open>\<open>normal_probability\<close> (lines 261-280): it assigns the global \<open>frequent_probdist\<close>.\<close>

definition normal_probability :: "(string, 'f) globals \<Rightarrow> 's list option \<Rightarrow> (('f, 'v) dict \<times> string) list \<Rightarrow> (string, 'f) globals" where
  "normal_probability g spam_frequent train_set =
     g\<lparr>frequent_probdist :=
         Some (fold (normal_probability_example (is_frequent g) spam_frequent) train_set Map.empty)\<rparr>"

section \<open>Training (lines 194-241)\<close>

text \<open>
  Modelled from the spec: \<open>FreqDist\<close> belongs to nltk.probability, which is not under
  src/. Section 4.1: a mapping from a value to its count, which grows by increments; a
  value that was never counted has count 0; \<open>N\<close> is the running total and \<open>B\<close> the
  number of distinct values.
\<close>

type_synonym 'a FreqDist = "('a, nat) dict"

definition freq :: "'a FreqDist \<Rightarrow> 'a \<Rightarrow> nat" where
  "freq fd x = (case map_of fd x of None \<Rightarrow> 0 | Some c \<Rightarrow> c)"

definition inc :: "'a \<Rightarrow> nat \<Rightarrow> 'a FreqDist \<Rightarrow> 'a FreqDist" where
  "inc x n fd = AList.update x (freq fd x + n) fd"

definition fd_N :: "'a FreqDist \<Rightarrow> nat" where
  "fd_N fd = sum_list (map snd fd)"

definition fd_B :: "'a FreqDist \<Rightarrow> nat" where
  "fd_B fd = length fd"

text \<open>
  Modelled from the spec: \<open>ELEProbDist\<close> belongs to nltk.probability, which is not under
  src/. Section 4.1: \<open>probability(v) = (count(v) + 0.5) / (total + 0.5 * B)\<close>, and 0
  where that divisor is 0. Section 7: a sample space smaller than the number of
  distinct observed values fails when the estimator is constructed. The samples are the
  observed values.
\<close>

definition ele_divisor :: "'a FreqDist \<Rightarrow> nat \<Rightarrow> real" where
  "ele_divisor freqdist bins = real (fd_N freqdist) + 0.5 * real bins"

definition ele :: "'a FreqDist \<Rightarrow> nat \<Rightarrow> 'a ProbDistI" where
  "ele freqdist bins =
     \<lparr>samples = map fst freqdist,
      prob = (\<lambda>x. if ele_divisor freqdist bins = 0 then 0
                  else (real (freq freqdist x) + 0.5) / ele_divisor freqdist bins)\<rparr>"

definition ELEProbDist :: "'a FreqDist \<Rightarrow> nat \<Rightarrow> error + 'a ProbDistI" where
  "ELEProbDist freqdist bins =
     (if bins < fd_B freqdist then Inl ValueError else Inr (ele freqdist bins))"

text \<open>
  The counters of \<open>train\<close>. A feature value is \<open>Some v\<close>, or \<open>None\<close> for Python's
  \<open>None\<close>. \<open>feature_freqdist\<close> is a \<open>defaultdict(FreqDist)\<close>: reading a missing key
  inserts an empty \<open>FreqDist\<close> under it (\<open>touch\<close>). \<open>feature_values\<close> is a
  \<open>defaultdict(set)\<close> that is never enumerated: a function to sets, empty by default.
  \<open>fnames\<close> is a set that is enumerated: the list of its elements, in insertion order.
\<close>

record ('l, 'f, 'v) counts =
  label_freqdist :: "'l FreqDist"
  feature_freqdist :: "('l \<times> 'f, 'v option FreqDist) dict"
  feature_values :: "'f \<Rightarrow> 'v option set"
  fnames :: "'f list"

definition empty_counts :: "('l, 'f, 'v) counts" where
  "empty_counts = \<lparr>label_freqdist = [], feature_freqdist = [], feature_values = (\<lambda>fname. {}), fnames = []\<rparr>"

definition get :: "'k \<Rightarrow> ('k, 'a FreqDist) dict \<Rightarrow> 'a FreqDist" where
  "get k d = (case map_of d k of None \<Rightarrow> [] | Some fd \<Rightarrow> fd)"

definition touch :: "'k \<Rightarrow> ('k, 'a FreqDist) dict \<Rightarrow> ('k, 'a FreqDist) dict" where
  "touch k d = (if map_of d k = None then AList.update k [] d else d)"

text \<open>\<open>d[k][x] += n\<close> on the \<open>defaultdict\<close>.\<close>

definition inc_at :: "'k \<Rightarrow> 'a \<Rightarrow> nat \<Rightarrow> ('k, 'a FreqDist) dict \<Rightarrow> ('k, 'a FreqDist) dict" where
  "inc_at k x n d = AList.update k (inc x n (get k d)) d"

definition set_add :: "'a \<Rightarrow> 'a list \<Rightarrow> 'a list" where
  "set_add x xs = (if x \<in> set xs then xs else xs @ [x])"

text \<open>Lines 209-215.\<close>

definition count_feature :: "'l \<Rightarrow> 'f \<times> 'v option \<Rightarrow> ('l, 'f, 'v) counts \<Rightarrow> ('l, 'f, 'v) counts" where
  "count_feature label = (\<lambda>(fname, fval) c.
     c\<lparr>feature_freqdist := inc_at (label, fname) fval 1 (feature_freqdist c),
       feature_values := (feature_values c)(fname := insert fval (feature_values c fname)),
       fnames := set_add fname (fnames c)\<rparr>)"

text \<open>Lines 207-215.\<close>

definition count_example :: "('f, 'v option) dict \<times> 'l \<Rightarrow> ('l, 'f, 'v) counts \<Rightarrow> ('l, 'f, 'v) counts" where
  "count_example = (\<lambda>(featureset, label) c.
     fold (count_feature label) featureset
       (c\<lparr>label_freqdist := inc label 1 (label_freqdist c)\<rparr>))"

text \<open>
  Lines 225-230. \<open>num_samples - count > 0\<close> on Python integers is \<open>count < num_samples\<close>,
  and there the difference is the natural number \<open>num_samples - count\<close>.
\<close>

definition impute_feature :: "'l \<Rightarrow> nat \<Rightarrow> 'f \<Rightarrow> ('l, 'f, 'v) counts \<Rightarrow> ('l, 'f, 'v) counts" where
  "impute_feature label num_samples fname c =
     (let ffd = touch (label, fname) (feature_freqdist c);
          count = fd_N (get (label, fname) ffd)
      in if num_samples - count > 0 then
           c\<lparr>feature_freqdist := inc_at (label, fname) None (num_samples - count) ffd,
             feature_values := (feature_values c)(fname := insert None (feature_values c fname))\<rparr>
         else c\<lparr>feature_freqdist := ffd\<rparr>)"

text \<open>What lines 225-229 do to the one frequency table they read.\<close>

definition impute_freqdist :: "nat \<Rightarrow> 'v option FreqDist \<Rightarrow> 'v option FreqDist" where
  "impute_freqdist num_samples fd =
     (if num_samples - fd_N fd > 0 then inc None (num_samples - fd_N fd) fd else fd)"

text \<open>Lines 222-230.\<close>

definition impute_label :: "'l \<Rightarrow> ('l, 'f, 'v) counts \<Rightarrow> ('l, 'f, 'v) counts" where
  "impute_label label c =
     (let num_samples = freq (label_freqdist c) label
      in fold (impute_feature label num_samples) (fnames c) c)"

definition impute :: "('l, 'f, 'v) counts \<Rightarrow> ('l, 'f, 'v) counts" where
  "impute c = fold impute_label (map fst (label_freqdist c)) c"

text \<open>Lines 200-230: the counters when both loops are done.\<close>

definition train_counts :: "(('f, 'v option) dict \<times> 'l) list \<Rightarrow> ('l, 'f, 'v) counts" where
  "train_counts labeled_featuresets = impute (fold count_example labeled_featuresets empty_counts)"

text \<open>Lines 237-239; an exception of the estimator ends the loop.\<close>

definition fit_feature :: "('f \<Rightarrow> 'v option set) \<Rightarrow> ('l \<times> 'f) \<times> 'v option FreqDist \<Rightarrow> error + ('l \<times> 'f, 'v option ProbDistI) dict \<Rightarrow> error + ('l \<times> 'f, 'v option ProbDistI) dict" where
  "fit_feature fvalues = (\<lambda>((label, fname), freqdist) r.
     (case r of
        Inl e \<Rightarrow> Inl e
      | Inr fpd \<Rightarrow>
          (case ELEProbDist freqdist (card (fvalues fname)) of
             Inl e \<Rightarrow> Inl e
           | Inr probdist \<Rightarrow> Inr (AList.update (label, fname) probdist fpd))))"

text \<open>
  \<open>train\<close> with the default estimator (lines 194-241). For the prior no \<open>bins\<close> is
  given: its sample space is the set of labels seen (section 4.2, step 5).
\<close>

definition train :: "(('f, 'v option) dict \<times> 'l) list \<Rightarrow> error + ('l, 'f, 'v option) NaiveBayesClassifier" where
  "train labeled_featuresets =
     (let c = train_counts labeled_featuresets in
      case ELEProbDist (label_freqdist c) (fd_B (label_freqdist c)) of
        Inl e \<Rightarrow> Inl e
      | Inr lp \<Rightarrow>
          (case fold (fit_feature (feature_values c)) (feature_freqdist c) (Inr []) of
             Inl e \<Rightarrow> Inl e
           | Inr fpd \<Rightarrow> Inr (init lp fpd)))"

section \<open>Training, in the words of the spec (section 4.2)\<close>

text \<open>
  What the spec says \<open>train\<close> computes, written down from its words and not from the
  code, to be compared with \<open>train\<close>: the number of examples that carry a label (step
  1); the number of times a value of a feature occurs in the examples of a label (step
  2); the number of values recorded for a feature under a label, and the shortfall of
  that number against the number of examples of the label, which is attributed to the
  reserved value \<open>None\<close> (step 4); and the set of values a feature takes across all
  labels, with \<open>None\<close> when some label has a shortfall (steps 3 and 4).
\<close>

definition label_count :: "(('f, 'v option) dict \<times> 'l) list \<Rightarrow> 'l \<Rightarrow> nat" where
  "label_count xs l = length (filter (\<lambda>(fs, l'). l' = l) xs)"

definition occurrences :: "(('f, 'v option) dict \<times> 'l) list \<Rightarrow> 'l \<Rightarrow> 'f \<Rightarrow> 'v option \<Rightarrow> nat" where
  "occurrences xs l f v =
     sum_list (map (\<lambda>(fs, l'). if l' = l then count_list fs (f, v) else 0) xs)"

definition recorded :: "(('f, 'v option) dict \<times> 'l) list \<Rightarrow> 'l \<Rightarrow> 'f \<Rightarrow> nat" where
  "recorded xs l f =
     sum_list (map (\<lambda>(fs, l'). if l' = l then length (filter (\<lambda>(k, v). k = f) fs) else 0) xs)"

definition shortfall :: "(('f, 'v option) dict \<times> 'l) list \<Rightarrow> 'l \<Rightarrow> 'f \<Rightarrow> nat" where
  "shortfall xs l f = label_count xs l - recorded xs l f"

definition value_count :: "(('f, 'v option) dict \<times> 'l) list \<Rightarrow> 'l \<Rightarrow> 'f \<Rightarrow> 'v option \<Rightarrow> nat" where
  "value_count xs l f v = occurrences xs l f v + (if v = None then shortfall xs l f else 0)"

definition feature_names :: "(('f, 'v option) dict \<times> 'l) list \<Rightarrow> 'f set" where
  "feature_names xs = set (concat (map (\<lambda>(fs, l). map fst fs) xs))"

definition observed_values :: "(('f, 'v option) dict \<times> 'l) list \<Rightarrow> 'f \<Rightarrow> 'v option set" where
  "observed_values xs f =
     set (concat (map (\<lambda>(fs, l). map snd (filter (\<lambda>(k, v). k = f) fs)) xs))"

definition value_space :: "(('f, 'v option) dict \<times> 'l) list \<Rightarrow> 'f \<Rightarrow> 'v option set" where
  "value_space xs f =
     observed_values xs f
       \<union> (if list_ex (\<lambda>(fs, l). 0 < shortfall xs l f) xs then {None} else {})"

section \<open>Feature importance (lines 160-192)\<close>








text \<open>\<open>xs[:n]\<close>: a negative \<open>n\<close> counts from the end.\<close>

definition slice_to :: "int \<Rightarrow> 'a list \<Rightarrow> 'a list" where
  "slice_to n xs = (if 0 \<le> n then take (nat n) xs else take (length xs - nat (- n)) xs)"


section \<open>Feature importance, in the words of the spec (section 4.4)\<close>





section \<open>A small corpus\<close>

text \<open>
  Two spam mails with the word feature \<open>w = buy\<close> and one ham mail with \<open>w = hello\<close>,
  the model \<open>train\<close> builds from them, and an override table that registers
  probability 0 for \<open>(spam, w)\<close> with \<open>w\<close> flagged frequent.
\<close>

definition example_corpus :: "((string, string option) dict \<times> string) list" where
  "example_corpus =
     [([(''w'', Some ''buy'')], ''spam''),
      ([(''w'', Some ''buy'')], ''spam''),
      ([(''w'', Some ''hello'')], ''ham'')]"

definition example_model :: "(string, string, string option) NaiveBayesClassifier" where
  "example_model =
     init (ele [(''spam'', 2), (''ham'', 1)] 2)
       [((''spam'', ''w''), ele [(Some ''buy'', 2)] 2),
        ((''ham'', ''w''), ele [(Some ''hello'', 1)] 2)]"

definition zero_override :: "(string, string) globals" where
  "zero_override =
     \<lparr>is_frequent = Some [''w'' \<mapsto> True],
      frequent_probdist = Some [(''spam'', ''w'') \<mapsto> 0]\<rparr>"

text \<open>
  Two words flagged frequent, with no override table assigned yet, and a training set
  of one spam mail and one ham mail that carry both words.
\<close>

definition frequent_words :: "(string, string) globals" where
  "frequent_words =
     \<lparr>is_frequent = Some [''w'' \<mapsto> True, ''u'' \<mapsto> True], frequent_probdist = None\<rparr>"

definition override_corpus :: "((string, string option) dict \<times> string) list" where
  "override_corpus =
     [([(''w'', Some ''buy''), (''u'', Some ''now'')], ''spam''),
      ([(''w'', Some ''hello''), (''u'', Some ''now'')], ''ham'')]"


section \<open>The override is the same for both labels\<close>

lemma override_value_spam:
  "override_value l cf c s f = override_value ''spam'' cf c s f"
  by (simp add: override_value_def)

lemma count_step_pair:
  "count_step (Some isf) (k, v) (c, cf)
     = (if isf k = Some True
        then (c + 1, cf(k \<mapsto> (case cf k of None \<Rightarrow> 0 | Some x \<Rightarrow> x) + 1))
        else (c, cf))"
  by (auto simp: count_step_def split: option.splits)

lemma count_step_fst:
  "fst (fold (count_step (Some isf)) fs acc)
     = fst acc + real (length (filter (\<lambda>(k, v). isf k = Some True) fs))"
proof (induction fs arbitrary: acc)
  case Nil
  then show ?case by simp
next
  case (Cons a fs)
  obtain k v where a: "a = (k, v)" by (cases a)
  obtain c cf where acc: "acc = (c, cf)" by (cases acc)
  show ?case
    by (simp add: Cons.IH a acc count_step_pair)
qed

lemma count_step_snd:
  "snd (fold (count_step (Some isf)) fs acc) f
     = (if isf f = Some True \<and> f \<in> fst ` set fs
        then Some ((case snd acc f of None \<Rightarrow> 0 | Some c \<Rightarrow> c)
                     + real (length (filter (\<lambda>(k, v). k = f) fs)))
        else snd acc f)"
proof (induction fs arbitrary: acc)
  case Nil
  then show ?case by simp
next
  case (Cons a fs)
  obtain k v where a: "a = (k, v)" by (cases a)
  obtain c cf where acc: "acc = (c, cf)" by (cases acc)
  have none: "filter (\<lambda>(k, v). k = f) fs = []" if "f \<notin> fst ` set fs"
    using that by (force simp: filter_empty_conv)
  show ?case
    by (auto simp: Cons.IH a acc count_step_pair none split: option.splits)
qed

lemma count_fs_frequent:
  "fst (count_fs (Some isf) fs) = real (length (filter (\<lambda>(k, v). isf k = Some True) fs))"
  by (simp add: count_fs_def count_step_fst)

lemma count_fs_fname:
  "snd (count_fs (Some isf) fs) f
     = (if isf f = Some True \<and> f \<in> fst ` set fs
        then Some (real (length (filter (\<lambda>(k, v). k = f) fs))) else None)"
  by (simp add: count_fs_def count_step_snd)

lemma count_fs_frequent_pos:
  assumes "isf f = Some True" and "f \<in> fst ` set fs"
  shows "0 < fst (count_fs (Some isf) fs)"
proof -
  from assms obtain v where "(f, v) \<in> set fs" by auto
  with assms(1) have "(f, v) \<in> set (filter (\<lambda>(k, v). isf k = Some True) fs)" by simp
  then have "0 < length (filter (\<lambda>(k, v). isf k = Some True) fs)"
    by (rule length_pos_if_in_set)
  then show ?thesis by (simp add: count_fs_frequent)
qed

lemma normal_probability_feature_pair:
  "normal_probability_feature (Some isf) sf l c cf (k, v) fpd
     = (if isf k = Some True
        then (case override_value l cf c sf k of Inl e \<Rightarrow> fpd | Inr p \<Rightarrow> fpd((l, k) \<mapsto> p))
        else fpd)"
  by (auto simp: normal_probability_feature_def split: option.splits)

lemma fold_normal_probability_feature:
  assumes "\<And>f. f \<in> fst ` set fs \<Longrightarrow> isf f = Some True \<Longrightarrow> override_value l cf c sf f = Inr (V f)"
  shows "fold (normal_probability_feature (Some isf) sf l c cf) fs fpd (l', f')
     = (if l' = l \<and> isf f' = Some True \<and> f' \<in> fst ` set fs then Some (V f') else fpd (l', f'))"
  using assms
proof (induction fs arbitrary: fpd)
  case Nil
  then show ?case by simp
next
  case (Cons a fs)
  obtain k v where a: "a = (k, v)" by (cases a)
  have IH: "fold (normal_probability_feature (Some isf) sf l c cf) fs fpd0 (l', f')
     = (if l' = l \<and> isf f' = Some True \<and> f' \<in> fst ` set fs then Some (V f') else fpd0 (l', f'))" for fpd0
    by (rule Cons.IH) (simp add: Cons.prems)
  have k: "isf k = Some True \<Longrightarrow> override_value l cf c sf k = Inr (V k)"
    by (rule Cons.prems) (simp_all add: a)
  show ?case
    using k by (auto simp: IH a normal_probability_feature_pair)
qed

lemma override_value_counted:
  assumes "isf f = Some True" and "f \<in> fst ` set fs"
  shows "override_value l (snd (count_fs (Some isf) fs)) (fst (count_fs (Some isf) fs)) (Some sf) f
     = Inr (real (length (filter (\<lambda>(k, v). k = f) fs))
              / (fst (count_fs (Some isf) fs) + real (length sf)))"
  using count_fs_frequent_pos [of isf f fs] assms
  by (simp add: override_value_def count_fs_fname Let_def)

lemma normal_probability_example_stored:
  "normal_probability_example (Some isf) (Some sf) (fs, l) fpd (l', f')
     = (if l' = l \<and> isf f' = Some True \<and> f' \<in> fst ` set fs
        then Some (real (length (filter (\<lambda>(k, v). k = f') fs))
                     / (fst (count_fs (Some isf) fs) + real (length sf)))
        else fpd (l', f'))"
proof -
  have "normal_probability_example (Some isf) (Some sf) (fs, l) fpd
      = fold (normal_probability_feature (Some isf) (Some sf) l
                (fst (count_fs (Some isf) fs)) (snd (count_fs (Some isf) fs))) fs fpd"
    by (simp add: normal_probability_example_def split_def Let_def)
  then show ?thesis
    using fold_normal_probability_feature
      [of fs isf l "snd (count_fs (Some isf) fs)" "fst (count_fs (Some isf) fs)" "Some sf"
          "\<lambda>f. real (length (filter (\<lambda>(k, v). k = f) fs))
                  / (fst (count_fs (Some isf) fs) + real (length sf))" fpd l' f']
      override_value_counted [of isf _ fs l sf]
    by simp
qed

lemma fold_normal_probability_example:
  assumes "isf f = Some True"
  shows "fold (normal_probability_example (Some isf) (Some sf)) ts fpd (l, f)
     = (let es = filter (\<lambda>(fs, l'). l' = l \<and> f \<in> fst ` set fs) ts in
        if es = [] then fpd (l, f)
        else Some (real (length (filter (\<lambda>(k, v). k = f) (fst (last es))))
                    / (fst (count_fs (Some isf) (fst (last es))) + real (length sf))))"
proof (induction ts rule: rev_induct)
  case Nil
  then show ?case by simp
next
  case (snoc x ts)
  obtain fs l' where x: "x = (fs, l')" by (cases x)
  show ?case
    using assms
    by (simp add: x snoc.IH normal_probability_example_stored Let_def)
qed


lemma normal_probability_stored:
  "is_frequent g = Some isf \<Longrightarrow>
   frequent_probdist (normal_probability g (Some sf) ts)
     = Some (fold (normal_probability_example (Some isf) (Some sf)) ts Map.empty)"
  by (simp add: normal_probability_def)

lemma count_fs_ratio:
  assumes "isf fname = Some True" and "fname \<in> fst ` set fs"
  shows "(case count_fs (Some isf) fs of
            (count_frequent, count_fname) \<Rightarrow>
              map_option (\<lambda>numerator. numerator / (count_frequent + real (length sf)))
                (count_fname fname))
       = Some (real (length (filter (\<lambda>(k, v). k = fname) fs))
                 / (fst (count_fs (Some isf) fs) + real (length sf)))"
  using assms count_fs_fname [of isf fs fname]
  by (simp add: split_def)

text \<open>
  C9. For every training set and every feature name flagged frequent, the value
  \<open>normal_probability\<close> leaves in \<open>frequent_probdist\<close> under a label and that feature is
  the one written by the last example of that label that has the feature:
  \<open>count_fname[fname] / (count_frequent + len(spam_frequent))\<close>, with the two counters
  \<open>count\<close> returns for that example. The label does not enter the formula: the branch
  for ham (any label other than spam) is the function the branch for spam is, and one
  feature set stores, labelled ham, under ham the value it stores, labelled spam, under
  spam; the size of \<open>spam_frequent\<close> is in the denominator of both. The value is
  stored: the numerator and the denominator are positive.
\<close>

theorem normal_probability_branches_equal:
  assumes "is_frequent g = Some isf" and "isf fname = Some True"
  shows "override_value label count_fname count_frequent spam_frequent fname' =
           override_value ''spam'' count_fname count_frequent spam_frequent fname'
       \<and> (\<exists>t. frequent_probdist (normal_probability g (Some sf) train_set) = Some t
              \<and> t (label, fname) =
                  (let es = filter (\<lambda>(featureset, l). l = label \<and> fname \<in> fst ` set featureset)
                              train_set
                   in if es = [] then None
                      else (case count_fs (is_frequent g) (fst (last es)) of
                              (count_frequent, count_fname) \<Rightarrow>
                                map_option
                                  (\<lambda>numerator. numerator / (count_frequent + real (length sf)))
                                  (count_fname fname)))
              \<and> ((\<exists>featureset. (featureset, label) \<in> set train_set
                                  \<and> fname \<in> fst ` set featureset)
                    \<longrightarrow> t (label, fname) \<noteq> None))
       \<and> (fname \<in> fst ` set featureset \<longrightarrow>
            (\<exists>t_ham t_spam numerator.
                frequent_probdist (normal_probability g (Some sf) [(featureset, ''ham'')])
                  = Some t_ham
              \<and> frequent_probdist (normal_probability g (Some sf) [(featureset, ''spam'')])
                  = Some t_spam
              \<and> snd (count_fs (is_frequent g) featureset) fname = Some numerator
              \<and> 0 < numerator
              \<and> 0 < fst (count_fs (is_frequent g) featureset) + real (length sf)
              \<and> t_ham (''ham'', fname)
                  = Some (numerator / (fst (count_fs (is_frequent g) featureset) + real (length sf)))
              \<and> t_spam (''spam'', fname)
                  = Some (numerator / (fst (count_fs (is_frequent g) featureset) + real (length sf)))))"
proof -
  let ?V = "\<lambda>fs. real (length (filter (\<lambda>(k, v). k = fname) fs))
                 / (fst (count_fs (Some isf) fs) + real (length sf))"
  have branches: "override_value label count_fname count_frequent spam_frequent fname' =
           override_value ''spam'' count_fname count_frequent spam_frequent fname'"
    by (rule override_value_spam)
  let ?es = "filter (\<lambda>(featureset, l). l = label \<and> fname \<in> fst ` set featureset) train_set"
  have last: "fname \<in> fst ` set (fst (last ?es))" if "?es \<noteq> []"
  proof -
    from that have "last ?es \<in> set ?es" by (rule last_in_set)
    then show ?thesis by auto
  qed
  have counted_last: "(case count_fs (Some isf) (fst (last ?es)) of
                    (count_frequent, count_fname) \<Rightarrow>
                      map_option (\<lambda>numerator. numerator / (count_frequent + real (length sf)))
                        (count_fname fname)) = Some (?V (fst (last ?es)))"
    if "?es \<noteq> []"
    using assms(2) last [OF that] by (rule count_fs_ratio)
  have entry: "fold (normal_probability_example (Some isf) (Some sf)) train_set Map.empty (label, fname)
      = (let es = ?es in if es = [] then None
         else (case count_fs (is_frequent g) (fst (last es)) of
                 (count_frequent, count_fname) \<Rightarrow>
                   map_option (\<lambda>numerator. numerator / (count_frequent + real (length sf)))
                     (count_fname fname)))"
    using fold_normal_probability_example [of isf fname sf train_set Map.empty label] assms(2)
      counted_last
    by (simp add: Let_def assms(1))
  have nonempty: "?es \<noteq> []" if "(fs, label) \<in> set train_set" "fname \<in> fst ` set fs" for fs
  proof -
    from that have "(fs, label) \<in> set ?es" by simp
    then show ?thesis by (metis empty_iff empty_set)
  qed
  have some: "fold (normal_probability_example (Some isf) (Some sf)) train_set Map.empty (label, fname) \<noteq> None"
    if "(fs, label) \<in> set train_set" "fname \<in> fst ` set fs" for fs
    using fold_normal_probability_example [of isf fname sf train_set Map.empty label] assms(2)
      nonempty [OF that]
    by (simp add: Let_def)
  have general: "\<exists>t. frequent_probdist (normal_probability g (Some sf) train_set) = Some t
              \<and> t (label, fname) =
                  (let es = ?es
                   in if es = [] then None
                      else (case count_fs (is_frequent g) (fst (last es)) of
                              (count_frequent, count_fname) \<Rightarrow>
                                map_option
                                  (\<lambda>numerator. numerator / (count_frequent + real (length sf)))
                                  (count_fname fname)))
              \<and> ((\<exists>featureset. (featureset, label) \<in> set train_set
                                  \<and> fname \<in> fst ` set featureset)
                    \<longrightarrow> t (label, fname) \<noteq> None)"
    using normal_probability_stored [OF assms(1), of sf train_set] entry some by blast
  have single: "\<exists>t_ham t_spam numerator.
                frequent_probdist (normal_probability g (Some sf) [(featureset, ''ham'')])
                  = Some t_ham
              \<and> frequent_probdist (normal_probability g (Some sf) [(featureset, ''spam'')])
                  = Some t_spam
              \<and> snd (count_fs (is_frequent g) featureset) fname = Some numerator
              \<and> 0 < numerator
              \<and> 0 < fst (count_fs (is_frequent g) featureset) + real (length sf)
              \<and> t_ham (''ham'', fname)
                  = Some (numerator / (fst (count_fs (is_frequent g) featureset) + real (length sf)))
              \<and> t_spam (''spam'', fname)
                  = Some (numerator / (fst (count_fs (is_frequent g) featureset) + real (length sf)))"
    if mem: "fname \<in> fst ` set featureset"
  proof -
    let ?n = "real (length (filter (\<lambda>(k, v). k = fname) featureset))"
    from mem obtain v where "(fname, v) \<in> set featureset" by auto
    then have "(fname, v) \<in> set (filter (\<lambda>(k, v). k = fname) featureset)" by simp
    then have pos: "0 < ?n" using length_pos_if_in_set by fastforce
    have num: "snd (count_fs (is_frequent g) featureset) fname = Some ?n"
      using mem assms by (simp add: count_fs_fname)
    have den: "0 < fst (count_fs (is_frequent g) featureset) + real (length sf)"
      using count_fs_frequent_pos [of isf fname featureset] mem assms by simp
    have ham: "fold (normal_probability_example (Some isf) (Some sf)) [(featureset, ''ham'')] Map.empty (''ham'', fname)
        = Some (?n / (fst (count_fs (is_frequent g) featureset) + real (length sf)))"
      using mem assms by (simp add: normal_probability_example_stored)
    have spam: "fold (normal_probability_example (Some isf) (Some sf)) [(featureset, ''spam'')] Map.empty (''spam'', fname)
        = Some (?n / (fst (count_fs (is_frequent g) featureset) + real (length sf)))"
      using mem assms by (simp add: normal_probability_example_stored)
    from normal_probability_stored [OF assms(1), of sf "[(featureset, ''ham'')]"]
      normal_probability_stored [OF assms(1), of sf "[(featureset, ''spam'')]"]
      num pos den ham spam
    show ?thesis by blast
  qed
  from branches general single show ?thesis by blast
qed

theorem normal_probability_branches_witness:
  "\<exists>t. frequent_probdist (normal_probability frequent_words (Some [''buy'']) override_corpus)
          = Some t
      \<and> t (''ham'', ''w'') = Some (1 / 3)
      \<and> t (''spam'', ''w'') = Some (1 / 3)"
proof -
  have g: "is_frequent frequent_words = Some [''w'' \<mapsto> True, ''u'' \<mapsto> True]"
    by (simp add: frequent_words_def)
  have w: "[''w'' \<mapsto> True, ''u'' \<mapsto> True] ''w'' = Some True"
    by simp
  have ham: "\<exists>t. frequent_probdist (normal_probability frequent_words (Some [''buy'']) override_corpus)
          = Some t \<and> t (''ham'', ''w'') = Some (1 / 3)"
    using normal_probability_branches_equal
      [OF g w, of "''ham''" _ _ _ _ "[''buy'']" override_corpus, THEN conjunct2, THEN conjunct1]
    by (simp add: override_corpus_def g count_fs_def count_step_def) blast
  have spam: "\<exists>t. frequent_probdist (normal_probability frequent_words (Some [''buy'']) override_corpus)
          = Some t \<and> t (''spam'', ''w'') = Some (1 / 3)"
    using normal_probability_branches_equal
      [OF g w, of "''spam''" _ _ _ _ "[''buy'']" override_corpus, THEN conjunct2, THEN conjunct1]
    by (simp add: override_corpus_def g count_fs_def count_step_def) blast
  from ham spam show ?thesis by auto
qed


section \<open>Scoring: the discarded features and the score table\<close>

lemma fold_dict_del_length:
  "length (fold (\<lambda>fname st. if P fname then st else dict_del a fname st) ks st) = length st"
  by (induction ks arbitrary: st) (auto simp: dict_del_def)

lemma fold_dict_del_other:
  "b \<noteq> a \<Longrightarrow> fold (\<lambda>fname st. if P fname then st else dict_del a fname st) ks st ! b = st ! b"
  by (induction ks arbitrary: st) (auto simp: dict_del_def)

lemma fold_dict_del_self:
  "a < length st \<Longrightarrow>
   fold (\<lambda>fname st. if P fname then st else dict_del a fname st) ks st ! a
     = filter (\<lambda>(k, v). P k \<or> k \<notin> set ks) (st ! a)"
proof (induction ks arbitrary: st)
  case Nil
  then show ?case by simp
next
  case (Cons k ks)
  show ?case
  proof (cases "P k")
    case True
    with Cons show ?thesis
      by (auto intro!: filter_cong)
  next
    case False
    have "length (dict_del a k st) > a"
      using Cons.prems by (simp add: dict_del_def)
    from Cons.IH [OF this] False Cons.prems show ?thesis
      by (auto simp: dict_del_def AList.delete_eq intro!: filter_cong)
  qed
qed

lemma discard_unseen_self:
  "a < length st \<Longrightarrow> discard_unseen m a st ! a = filter (\<lambda>(k, v). seen m k) (st ! a)"
  unfolding discard_unseen_def
  by (subst fold_dict_del_self) (force intro!: filter_cong)+

lemma discard_unseen_other:
  "b \<noteq> a \<Longrightarrow> discard_unseen m a st ! b = st ! b"
  unfolding discard_unseen_def by (rule fold_dict_del_other)

lemma discard_unseen_length:
  "length (discard_unseen m a st) = length st"
  unfolding discard_unseen_def by (rule fold_dict_del_length)

lemma prob_classify_store_fst:
  "a < length st \<Longrightarrow>
   fst (prob_classify_store m g a st)
     = DictionaryProbDist (add_features m g (filter (\<lambda>(k, v). seen m k) (st ! a)) (init_logprob m))"
  by (simp add: prob_classify_store_def dict_copy_def Let_def discard_unseen_self nth_append)

lemma prob_classify_store_snd:
  "a < length st \<Longrightarrow>
   snd (prob_classify_store m g a st) = st @ [filter (\<lambda>(k, v). seen m k) (st ! a)]"
  apply (simp add: prob_classify_store_def dict_copy_def Let_def)
  apply (rule nth_equalityI)
   apply (simp add: discard_unseen_length)
  subgoal for i
    apply (cases "i = length st")
     apply (simp add: discard_unseen_self nth_append)
    apply (simp add: discard_unseen_other discard_unseen_length nth_append)
    done
  done

lemma prob_classify_eq:
  "prob_classify m g fs
     = DictionaryProbDist (add_features m g (filter (\<lambda>(k, v). seen m k) fs) (init_logprob m))"
  by (simp add: prob_classify_def prob_classify_store_fst)

lemma try_override_no_globals: "try_override no_globals pd l f v = Inl NameError"
  by (simp add: try_override_def no_globals_def)

lemma feature_logprob_fallback:
  "map_of (feature_probdist m) (label, fname) = Some pd \<Longrightarrow>
   try_override g pd label fname fval = Inl e \<Longrightarrow>
   feature_logprob m g label fname fval = logprob pd fval"
  by (simp add: feature_logprob_def)

lemma feature_logprob_no_globals:
  "feature_logprob m no_globals label fname fval =
     (case map_of (feature_probdist m) (label, fname) of
        Some pd \<Rightarrow> logprob pd fval | None \<Rightarrow> NINF)"
  by (simp add: feature_logprob_def try_override_no_globals sum_logs_def split: option.splits)

lemma add_features_cong:
  assumes "\<And>l f v. l \<in> set (labels m) \<Longrightarrow> (f, v) \<in> set fs \<Longrightarrow>
             feature_logprob m g l f v = feature_logprob m g' l f v"
  shows "add_features m g fs lp = add_features m g' fs lp"
  unfolding add_features_def
  by (rule fold_cong [OF refl refl], rule ext, rule fold_cong [OF refl refl])
     (use assms in \<open>auto\<close>)

lemma map_fst_map_entry: "map fst (AList.map_entry k f xs) = map fst xs"
  by (induction xs) auto

lemma map_fst_add_features: "map fst (add_features m g fs lp) = map fst lp"
proof -
  have inner: "map fst (fold (\<lambda>(fname, fval) lp.
           AList.map_entry label (\<lambda>x. add_log x (h fname fval)) lp) fs lp) = map fst lp"
    for label h and fs :: "('b \<times> 'c) list" and lp :: "('a \<times> logval) list"
    by (induction fs arbitrary: lp) (auto simp: map_fst_map_entry)
  have outer: "map fst (fold (\<lambda>label lp. fold (\<lambda>(fname, fval) lp.
           AList.map_entry label (\<lambda>x. add_log x (h label fname fval)) lp) fs lp) ls lp) = map fst lp"
    for h ls and fs :: "('b \<times> 'c) list" and lp :: "('a \<times> logval) list"
    by (induction ls arbitrary: lp) (auto simp: inner)
  show ?thesis unfolding add_features_def by (rule outer)
qed

lemma init_logprob_keys: "fst ` set (init_logprob m) = set (labels m)"
proof -
  have "fst ` set (fold (\<lambda>label lp. AList.update label (h label) lp) ls lp) = set ls \<union> fst ` set lp"
    for h ls and lp :: "('a \<times> logval) list"
    by (induction ls arbitrary: lp) (auto simp: dom_update)
  then show ?thesis by (simp add: init_logprob_def)
qed

lemma DictionaryProbDist_Inr: "d \<noteq> [] \<Longrightarrow> \<exists>d'. DictionaryProbDist d = Inr d'"
  by (simp add: DictionaryProbDist_def split: logval.splits)

lemma DictionaryProbDist_Nil: "DictionaryProbDist [] = Inl ValueError"
  by (simp add: DictionaryProbDist_def)

lemma prob_classify_returns:
  "labels m \<noteq> [] \<Longrightarrow> \<exists>d. prob_classify m g fs = Inr d"
proof -
  assume "labels m \<noteq> []"
  then have "init_logprob m \<noteq> []"
    using init_logprob_keys [of m] by auto
  then have "add_features m g (filter (\<lambda>(k, v). seen m k) fs) (init_logprob m) \<noteq> []"
    using map_fst_add_features [of m g "filter (\<lambda>(k, v). seen m k) fs" "init_logprob m"]
    by (metis map_is_Nil_conv)
  then show ?thesis
    unfolding prob_classify_eq by (rule DictionaryProbDist_Inr)
qed

lemma filter_seen_update:
  "\<not> P u \<Longrightarrow> filter (\<lambda>(k, v). P k) (AList.update u x fs) = filter (\<lambda>(k, v). P k) fs"
  by (induction fs) auto

section \<open>Normalisation\<close>











section \<open>The override and its fallback\<close>

lemma feature_logprob_failed_lookup:
  assumes "\<And>pd. map_of (feature_probdist m) (label, fname) = Some pd \<Longrightarrow>
             \<exists>e. try_override g pd label fname fval = Inl e"
  shows "feature_logprob m g label fname fval = feature_logprob m no_globals label fname fval"
proof (cases "map_of (feature_probdist m) (label, fname)")
  case None
  then show ?thesis by (simp add: feature_logprob_def)
next
  case (Some pd)
  with assms obtain e where "try_override g pd label fname fval = Inl e" by blast
  with Some show ?thesis
    by (simp add: feature_logprob_fallback feature_logprob_no_globals)
qed



lemma example_labels: "labels example_model = [''spam'', ''ham'']"
  by (simp add: example_model_def init_def ele_def)

lemma example_table:
  "feature_probdist example_model =
     [((''spam'', ''w''), ele [(Some ''buy'', 2)] 2),
      ((''ham'', ''w''), ele [(Some ''hello'', 1)] 2)]"
  by (simp add: example_model_def init_def)


text \<open>
  C4. When no label has the feature name \<open>u\<close> in the conditional distribution table,
  the score of a feature set with \<open>u\<close> set to any value is the score of the feature set
  itself; in particular the score of \<open>{u: x}\<close> is the score of \<open>{}\<close>.
\<close>

theorem unseen_feature_ignored:
  assumes "\<forall>label. map_of (feature_probdist m) (label, u) = None"
  shows "prob_classify m g (AList.update u x fs) = prob_classify m g fs
       \<and> prob_classify m g [(u, x)] = prob_classify m g []"
proof -
  have "\<not> seen m u"
    using assms by (simp add: seen_def list_ex_iff)
  then show ?thesis
    by (simp add: prob_classify_eq filter_seen_update)
qed

theorem unseen_feature_witness:
  "prob_classify example_model no_globals [(''unknown_token'', Some ''x'')]
     = prob_classify example_model no_globals []
   \<and> prob_classify example_model no_globals
        (AList.update ''unknown_token'' (Some ''x'') [(''w'', Some ''buy'')])
     = prob_classify example_model no_globals [(''w'', Some ''buy'')]"
  using unseen_feature_ignored
    [of example_model "''unknown_token''" no_globals "Some ''x''" "[(''w'', Some ''buy'')]"]
  by (simp add: example_table)

text \<open>
  C10. \<open>prob_classify\<close> leaves the caller's feature set as it was: the dictionary at
  the caller's address, and every other dictionary that existed before the call, is
  unchanged, also when feature names unknown to the model are discarded; the deletions
  happen in the copy, and the result is the score of the caller's feature set.
\<close>

theorem prob_classify_leaves_featureset:
  assumes "a < length st"
  shows "snd (prob_classify_store m g a st) ! a = st ! a
       \<and> take (length st) (snd (prob_classify_store m g a st)) = st
       \<and> fst (prob_classify_store m g a st) = prob_classify m g (st ! a)"
  using assms
  by (simp add: prob_classify_store_snd prob_classify_store_fst prob_classify_eq nth_append)

theorem prob_classify_leaves_featureset_witness:
  "snd (prob_classify_store example_model no_globals 0
          [[(''unknown_token'', Some ''x''), (''w'', Some ''buy'')]]) ! 0
     = [(''unknown_token'', Some ''x''), (''w'', Some ''buy'')]
   \<and> snd (prob_classify_store example_model no_globals 0
          [[(''unknown_token'', Some ''x''), (''w'', Some ''buy'')]]) ! 1
     = [(''w'', Some ''buy'')]"
  using prob_classify_leaves_featureset
    [of 0 "[[(''unknown_token'', Some ''x''), (''w'', Some ''buy'')]]" example_model no_globals]
  by (simp add: prob_classify_store_snd seen_def example_labels example_table)

lemma try_override_nonpositive:
  assumes "is_frequent g = Some isf" and "isf fname = Some True"
    and "frequent_probdist g = Some fpd" and "fpd (label, fname) = Some p" and "p \<le> 0"
  shows "try_override g pd label fname v = Inl ValueError"
  using assms by (simp add: try_override_def)

lemma feature_logprob_drop_entry:
  assumes "is_frequent g = Some isf" and "isf fname = Some True"
    and "frequent_probdist g = Some fpd" and "fpd (label, fname) = Some p" and "p \<le> 0"
  shows "feature_logprob m g l f v
       = feature_logprob m (g\<lparr>frequent_probdist := Some (fpd((label, fname) := None))\<rparr>) l f v"
proof (cases "(l, f) = (label, fname)")
  case True
  with assms show ?thesis
    by (simp add: feature_logprob_def try_override_def split: option.splits)
next
  case False
  with assms show ?thesis
    by (auto simp: feature_logprob_def try_override_def split: option.splits)
qed

text \<open>
  C2, as the code has it. When the override table registers a probability that is not
  positive (0 in particular) for a pair of the table whose feature name is flagged
  frequent, \<open>math.log\<close> raises, the bare \<open>except\<close> catches the exception, and the
  feature adds the model's own conditional log-probability: no error reaches the caller,
  and the result is the one computed with that override entry missing.
\<close>

theorem zero_override_falls_back:
  assumes "map_of (feature_probdist m) (label, fname) = Some pd"
    and "is_frequent g = Some isf" and "isf fname = Some True"
    and "frequent_probdist g = Some fpd" and "fpd (label, fname) = Some p" and "p \<le> 0"
    and "labels m \<noteq> []"
  shows "feature_logprob m g label fname fval = logprob pd fval
       \<and> (\<exists>d. prob_classify m g fs = Inr d)
       \<and> prob_classify m g fs
           = prob_classify m (g\<lparr>frequent_probdist := Some (fpd((label, fname) := None))\<rparr>) fs"
proof (intro conjI)
  show "feature_logprob m g label fname fval = logprob pd fval"
    using assms(1) try_override_nonpositive [OF assms(2-6)] by (rule feature_logprob_fallback)
  show "\<exists>d. prob_classify m g fs = Inr d"
    using assms(7) by (rule prob_classify_returns)
  show "prob_classify m g fs
      = prob_classify m (g\<lparr>frequent_probdist := Some (fpd((label, fname) := None))\<rparr>) fs"
    unfolding prob_classify_eq
    by (rule arg_cong [where f = DictionaryProbDist], rule add_features_cong)
       (rule feature_logprob_drop_entry [OF assms(2-6)])
qed

theorem zero_override_witness:
  "feature_logprob example_model zero_override ''spam'' ''w'' (Some ''buy'')
     = logprob (ele [(Some ''buy'', 2)] 2) (Some ''buy'')
   \<and> (\<exists>d. prob_classify example_model zero_override [(''w'', Some ''buy'')] = Inr d)"
proof -
  have entry: "map_of (feature_probdist example_model) (''spam'', ''w'')
      = Some (ele [(Some ''buy'', 2)] 2)"
    by (simp add: example_table)
  have g: "is_frequent zero_override = Some [''w'' \<mapsto> True]"
    "[''w'' \<mapsto> True] ''w'' = Some True"
    "frequent_probdist zero_override = Some [(''spam'', ''w'') \<mapsto> 0]"
    "[(''spam'', ''w'') \<mapsto> (0::real)] (''spam'', ''w'') = Some 0"
    "(0::real) \<le> 0"
    by (simp_all add: zero_override_def)
  have some_label: "labels example_model \<noteq> []"
    by (simp add: example_labels)
  from zero_override_falls_back
    [OF entry g some_label, of "Some ''buy''" "[(''w'', Some ''buy'')]"]
  show ?thesis by blast
qed

theorem zero_override_counterexample:
  "prob_classify example_model zero_override [(''w'', Some ''buy'')]
     = prob_classify example_model no_globals [(''w'', Some ''buy'')]
   \<and> (\<exists>d. prob_classify example_model zero_override [(''w'', Some ''buy'')] = Inr d)"
proof
  have "feature_logprob example_model zero_override l f v
      = feature_logprob example_model no_globals l f v" for l f v
    by (rule feature_logprob_failed_lookup)
       (auto simp: try_override_def zero_override_def)
  then have "add_features example_model zero_override fs lp
      = add_features example_model no_globals fs lp" for fs lp
    by (intro add_features_cong)
  then show "prob_classify example_model zero_override [(''w'', Some ''buy'')]
     = prob_classify example_model no_globals [(''w'', Some ''buy'')]"
    by (simp add: prob_classify_eq)
  show "\<exists>d. prob_classify example_model zero_override [(''w'', Some ''buy'')] = Inr d"
    by (rule prob_classify_returns) (simp add: example_labels)
qed


section \<open>Frequency tables\<close>

lemma freq_inc: "freq (inc x n fd) y = (if y = x then freq fd x + n else freq fd y)"
  by (simp add: inc_def freq_def update_conv')

lemma keys_inc: "fst ` set (inc x n fd) = insert x (fst ` set fd)"
  by (simp add: inc_def dom_update)

lemma distinct_inc: "distinct (map fst fd) \<Longrightarrow> distinct (map fst (inc x n fd))"
  by (simp add: inc_def distinct_update)

lemma fd_N_inc: "fd_N (inc x n fd) = fd_N fd + n"
  unfolding inc_def fd_N_def freq_def
  by (induction fd) auto

lemma freq_Nil: "freq [] x = 0"
  by (simp add: freq_def)

lemma fd_N_Nil: "fd_N [] = 0"
  by (simp add: fd_N_def)

lemma get_touch: "get k (touch k' d) = get k d"
  by (auto simp: get_def touch_def update_conv' split: option.splits)

lemma get_inc_at: "get k (inc_at k' x n d) = (if k = k' then inc x n (get k' d) else get k d)"
  by (simp add: get_def inc_at_def update_conv')

lemma keys_touch: "fst ` set (touch k d) = insert k (fst ` set d)"
  by (auto simp: touch_def dom_update map_of_eq_None_iff)

lemma keys_inc_at: "fst ` set (inc_at k x n d) = insert k (fst ` set d)"
  by (simp add: inc_at_def dom_update)

lemma distinct_touch: "distinct (map fst d) \<Longrightarrow> distinct (map fst (touch k d))"
  by (simp add: touch_def distinct_update)

lemma distinct_inc_at: "distinct (map fst d) \<Longrightarrow> distinct (map fst (inc_at k x n d))"
  by (simp add: inc_at_def distinct_update)

lemma get_Nil: "get k [] = []"
  by (simp add: get_def)

lemma set_set_add: "set (set_add x xs) = insert x (set xs)"
  by (auto simp: set_add_def)

lemma distinct_set_add: "distinct xs \<Longrightarrow> distinct (set_add x xs)"
  by (simp add: set_add_def)

section \<open>The counting loop, field by field\<close>

lemma count_feature_fields:
  "label_freqdist (fold (count_feature l) fs c) = label_freqdist c"
  "feature_freqdist (fold (count_feature l) fs c)
     = fold (\<lambda>(f, v). inc_at (l, f) v (Suc 0)) fs (feature_freqdist c)"
  "feature_values (fold (count_feature l) fs c)
     = fold (\<lambda>(f, v) fv. fv(f := insert v (fv f))) fs (feature_values c)"
  "fnames (fold (count_feature l) fs c) = fold (\<lambda>(f, v). set_add f) fs (fnames c)"
  by (induction fs arbitrary: c; simp add: count_feature_def split_def)+

lemma count_example_fields:
  "label_freqdist (fold count_example xs c) = fold (\<lambda>(fs, l). inc l (Suc 0)) xs (label_freqdist c)"
  "feature_freqdist (fold count_example xs c)
     = fold (\<lambda>(fs, l). fold (\<lambda>(f, v). inc_at (l, f) v (Suc 0)) fs) xs (feature_freqdist c)"
  "feature_values (fold count_example xs c)
     = fold (\<lambda>(fs, l). fold (\<lambda>(f, v) fv. fv(f := insert v (fv f))) fs) xs (feature_values c)"
  "fnames (fold count_example xs c) = fold (\<lambda>(fs, l). fold (\<lambda>(f, v). set_add f) fs) xs (fnames c)"
  by (induction xs arbitrary: c; simp add: count_example_def split_def count_feature_fields)+

subsection \<open>Labels\<close>

lemma freq_count_labels:
  "freq (fold (\<lambda>(fs, l). inc l (Suc 0)) xs lfd) l = freq lfd l + label_count xs l"
  by (induction xs arbitrary: lfd) (auto simp: label_count_def freq_inc)

lemma keys_count_labels:
  "fst ` set (fold (\<lambda>(fs, l). inc l (Suc 0)) xs lfd) = fst ` set lfd \<union> snd ` set xs"
  by (induction xs arbitrary: lfd) (simp_all add: keys_inc split_def)

lemma distinct_count_labels:
  "distinct (map fst lfd) \<Longrightarrow> distinct (map fst (fold (\<lambda>(fs, l). inc l (Suc 0)) xs lfd))"
  by (induction xs arbitrary: lfd) (auto simp: distinct_inc)

lemma fd_N_count_labels:
  "fd_N (fold (\<lambda>(fs, l). inc l (Suc 0)) xs lfd) = fd_N lfd + length xs"
  by (induction xs arbitrary: lfd) (auto simp: fd_N_inc)

subsection \<open>Feature values per label\<close>

lemma get_count_features:
  "get (l', f') (fold (\<lambda>(f, v). inc_at (l, f) v (Suc 0)) fs d)
     = (if l' = l then fold (\<lambda>(f, v) fd. if f = f' then inc v (Suc 0) fd else fd) fs (get (l', f') d)
        else get (l', f') d)"
  by (induction fs arbitrary: d) (auto simp: get_inc_at)

lemma freq_count_values:
  "freq (fold (\<lambda>(f, v) fd. if f = f' then inc v (Suc 0) fd else fd) fs fd) v'
     = freq fd v' + count_list fs (f', v')"
  by (induction fs arbitrary: fd) (simp_all add: freq_inc split_def prod_eq_iff)

lemma fd_N_count_values:
  "fd_N (fold (\<lambda>(f, v) fd. if f = f' then inc v (Suc 0) fd else fd) fs fd)
     = fd_N fd + length (filter (\<lambda>(k, v). k = f') fs)"
  by (induction fs arbitrary: fd) (auto simp: fd_N_inc)

lemma keys_count_values:
  "fst ` set (fold (\<lambda>(f, v) fd. if f = f' then inc v (Suc 0) fd else fd) fs fd)
     = fst ` set fd \<union> snd ` {e \<in> set fs. fst e = f'}"
proof (induction fs arbitrary: fd)
  case Nil
  then show ?case by simp
next
  case (Cons a fs)
  obtain f v where a: "a = (f, v)" by (cases a)
  have "{e \<in> set (a # fs). fst e = f'}
      = (if f = f' then insert a {e \<in> set fs. fst e = f'} else {e \<in> set fs. fst e = f'})"
    by (auto simp: a)
  then show ?case
    by (simp add: Cons.IH keys_inc a)
qed

lemma distinct_count_values:
  "distinct (map fst fd) \<Longrightarrow>
   distinct (map fst (fold (\<lambda>(f, v) fd. if f = f' then inc v (Suc 0) fd else fd) fs fd))"
  by (induction fs arbitrary: fd) (auto simp: distinct_inc)


lemma get_count_examples:
  "get (l, f) (fold (\<lambda>(fs, l'). fold (\<lambda>(f', v). inc_at (l', f') v (Suc 0)) fs) xs d)
     = fold (\<lambda>(fs, l') fd.
          if l' = l then fold (\<lambda>(f', v) fd. if f' = f then inc v (Suc 0) fd else fd) fs fd else fd)
        xs (get (l, f) d)"
proof (induction xs arbitrary: d)
  case Nil
  then show ?case by simp
next
  case (Cons a xs)
  obtain fs l' where a: "a = (fs, l')" by (cases a)
  show ?case
    by (simp add: a Cons.IH get_count_features)
qed

lemma freq_count_examples:
  "freq (fold (\<lambda>(fs, l') fd.
          if l' = l then fold (\<lambda>(f', v) fd. if f' = f then inc v (Suc 0) fd else fd) fs fd else fd)
        xs fd) v
     = freq fd v + occurrences xs l f v"
proof (induction xs arbitrary: fd)
  case Nil
  then show ?case by (simp add: occurrences_def)
next
  case (Cons a xs)
  obtain fs l' where a: "a = (fs, l')" by (cases a)
  show ?case
    by (simp add: a Cons.IH freq_count_values occurrences_def)
qed

lemma fd_N_count_examples:
  "fd_N (fold (\<lambda>(fs, l') fd.
          if l' = l then fold (\<lambda>(f', v) fd. if f' = f then inc v (Suc 0) fd else fd) fs fd else fd)
        xs fd)
     = fd_N fd + recorded xs l f"
proof (induction xs arbitrary: fd)
  case Nil
  then show ?case by (simp add: recorded_def)
next
  case (Cons a xs)
  obtain fs l' where a: "a = (fs, l')" by (cases a)
  show ?case
    by (simp add: a Cons.IH fd_N_count_values recorded_def)
qed

lemma keys_count_examples:
  "fst ` set (fold (\<lambda>(fs, l') fd.
          if l' = l then fold (\<lambda>(f', v) fd. if f' = f then inc v (Suc 0) fd else fd) fs fd else fd)
        xs fd)
     \<subseteq> fst ` set fd \<union> observed_values xs f"
proof (induction xs arbitrary: fd)
  case Nil
  then show ?case by simp
next
  case (Cons a xs)
  obtain fs l' where a: "a = (fs, l')" by (cases a)
  have obs: "observed_values (a # xs) f = snd ` {e \<in> set fs. fst e = f} \<union> observed_values xs f"
    by (auto simp: observed_values_def a)
  show ?case
  proof (cases "l' = l")
    case True
    with Cons.IH [of "fold (\<lambda>(f', v) fd. if f' = f then inc v (Suc 0) fd else fd) fs fd"]
    show ?thesis
      unfolding obs by (simp add: a keys_count_values) blast
  next
    case False
    with Cons.IH [of fd] show ?thesis
      unfolding obs by (simp add: a) blast
  qed
qed

lemma distinct_count_examples:
  "distinct (map fst fd) \<Longrightarrow>
   distinct (map fst (fold (\<lambda>(fs, l') fd.
          if l' = l then fold (\<lambda>(f', v) fd. if f' = f then inc v (Suc 0) fd else fd) fs fd else fd)
        xs fd))"
proof (induction xs arbitrary: fd)
  case Nil
  then show ?case by simp
next
  case (Cons a xs)
  obtain fs l' where a: "a = (fs, l')" by (cases a)
  show ?case
    using Cons.prems by (simp add: a Cons.IH distinct_count_values)
qed

subsection \<open>The keys of the table\<close>

lemma keys_count_features:
  "fst ` set (fold (\<lambda>(f, v). inc_at (l, f) v (Suc 0)) fs d) = fst ` set d \<union> Pair l ` fst ` set fs"
proof (induction fs arbitrary: d)
  case Nil
  then show ?case by simp
next
  case (Cons a fs)
  obtain f v where a: "a = (f, v)" by (cases a)
  show ?case
    by (simp add: a Cons.IH keys_inc_at)
qed

lemma distinct_count_features:
  "distinct (map fst d) \<Longrightarrow> distinct (map fst (fold (\<lambda>(f, v). inc_at (l, f) v (Suc 0)) fs d))"
proof (induction fs arbitrary: d)
  case Nil
  then show ?case by simp
next
  case (Cons a fs)
  obtain f v where a: "a = (f, v)" by (cases a)
  show ?case
    using Cons.prems by (simp add: a Cons.IH distinct_inc_at)
qed

lemma keys_count_table:
  "fst ` set (fold (\<lambda>(fs, l'). fold (\<lambda>(f', v). inc_at (l', f') v (Suc 0)) fs) xs d)
     \<subseteq> fst ` set d \<union> snd ` set xs \<times> feature_names xs"
proof (induction xs arbitrary: d)
  case Nil
  then show ?case by simp
next
  case (Cons a xs)
  obtain fs l' where a: "a = (fs, l')" by (cases a)
  have "fst ` set (fold (\<lambda>(fs, l'). fold (\<lambda>(f', v). inc_at (l', f') v (Suc 0)) fs) xs
            (fold (\<lambda>(f', v). inc_at (l', f') v (Suc 0)) fs d))
      \<subseteq> (fst ` set d \<union> Pair l' ` fst ` set fs) \<union> snd ` set xs \<times> feature_names xs"
    using Cons.IH [of "fold (\<lambda>(f', v). inc_at (l', f') v (Suc 0)) fs d"]
    by (simp add: keys_count_features)
  also have "\<dots> \<subseteq> fst ` set d \<union> snd ` set (a # xs) \<times> feature_names (a # xs)"
  proof -
    have "feature_names (a # xs) = fst ` set fs \<union> feature_names xs"
      by (simp add: feature_names_def a)
    moreover have "snd ` set (a # xs) = insert l' (snd ` set xs)"
      by (simp add: a)
    ultimately show ?thesis by auto
  qed
  finally show ?case
    by (simp add: a)
qed

lemma distinct_count_table:
  "distinct (map fst d) \<Longrightarrow>
   distinct (map fst (fold (\<lambda>(fs, l'). fold (\<lambda>(f', v). inc_at (l', f') v (Suc 0)) fs) xs d))"
proof (induction xs arbitrary: d)
  case Nil
  then show ?case by simp
next
  case (Cons a xs)
  obtain fs l' where a: "a = (fs, l')" by (cases a)
  show ?case
    using Cons.prems by (simp add: a Cons.IH distinct_count_features)
qed

subsection \<open>The values and the names of the features\<close>

lemma values_count_features:
  "fold (\<lambda>(f, v) fv. fv(f := insert v (fv f))) fs fv f'
     = fv f' \<union> snd ` {e \<in> set fs. fst e = f'}"
proof (induction fs arbitrary: fv)
  case Nil
  then show ?case by simp
next
  case (Cons a fs)
  obtain f v where a: "a = (f, v)" by (cases a)
  have "{e \<in> set (a # fs). fst e = f'}
      = (if f = f' then insert a {e \<in> set fs. fst e = f'} else {e \<in> set fs. fst e = f'})"
    by (auto simp: a)
  then show ?case
    by (simp only: a fold_simps case_prod_conv Cons.IH) auto
qed

lemma values_count_examples:
  "fold (\<lambda>(fs, l). fold (\<lambda>(f, v) fv. fv(f := insert v (fv f))) fs) xs fv f'
     = fv f' \<union> observed_values xs f'"
proof (induction xs arbitrary: fv)
  case Nil
  then show ?case by (simp add: observed_values_def)
next
  case (Cons a xs)
  obtain fs l where a: "a = (fs, l)" by (cases a)
  have obs: "observed_values (a # xs) f' = snd ` {e \<in> set fs. fst e = f'} \<union> observed_values xs f'"
    by (auto simp: observed_values_def a)
  let ?G = "fold (\<lambda>(f, v) fv. fv(f := insert v (fv f))) fs"
  have "fold (\<lambda>(fs, l). fold (\<lambda>(f, v) fv. fv(f := insert v (fv f))) fs) (a # xs) fv f'
      = fold (\<lambda>(fs, l). fold (\<lambda>(f, v) fv. fv(f := insert v (fv f))) fs) xs (?G fv) f'"
    by (simp only: a fold_simps case_prod_conv comp_apply)
  also have "\<dots> = ?G fv f' \<union> observed_values xs f'"
    by (rule Cons.IH)
  also have "?G fv f' = fv f' \<union> snd ` {e \<in> set fs. fst e = f'}"
    by (rule values_count_features)
  finally show ?case
    unfolding obs by (simp only: Un_assoc)
qed

lemma names_count_features:
  "set (fold (\<lambda>(f, v). set_add f) fs ns) = set ns \<union> fst ` set fs"
proof (induction fs arbitrary: ns)
  case Nil
  then show ?case by simp
next
  case (Cons a fs)
  obtain f v where a: "a = (f, v)" by (cases a)
  show ?case
    by (simp add: a Cons.IH set_set_add)
qed

lemma distinct_names_features:
  "distinct ns \<Longrightarrow> distinct (fold (\<lambda>(f, v). set_add f) fs ns)"
proof (induction fs arbitrary: ns)
  case Nil
  then show ?case by simp
next
  case (Cons a fs)
  obtain f v where a: "a = (f, v)" by (cases a)
  show ?case
    using Cons.prems by (simp add: a Cons.IH distinct_set_add)
qed

lemma names_count_examples:
  "set (fold (\<lambda>(fs, l). fold (\<lambda>(f, v). set_add f) fs) xs ns) = set ns \<union> feature_names xs"
proof (induction xs arbitrary: ns)
  case Nil
  then show ?case by (simp add: feature_names_def)
next
  case (Cons a xs)
  obtain fs l where a: "a = (fs, l)" by (cases a)
  show ?case
    by (simp add: a Cons.IH names_count_features feature_names_def Un_assoc)
qed

lemma distinct_names_examples:
  "distinct ns \<Longrightarrow> distinct (fold (\<lambda>(fs, l). fold (\<lambda>(f, v). set_add f) fs) xs ns)"
proof (induction xs arbitrary: ns)
  case Nil
  then show ?case by simp
next
  case (Cons a xs)
  obtain fs l where a: "a = (fs, l)" by (cases a)
  show ?case
    using Cons.prems by (simp add: a Cons.IH distinct_names_features)
qed


section \<open>The imputation loop\<close>

lemma impute_feature_label_freqdist [simp]:
  "label_freqdist (impute_feature l n f c) = label_freqdist c"
  by (simp add: impute_feature_def Let_def)

lemma impute_feature_fnames [simp]:
  "fnames (impute_feature l n f c) = fnames c"
  by (simp add: impute_feature_def Let_def)

lemma get_impute_feature:
  "get k (feature_freqdist (impute_feature l n f c))
     = (if k = (l, f) then impute_freqdist n (get k (feature_freqdist c))
        else get k (feature_freqdist c))"
  by (simp add: impute_feature_def Let_def get_inc_at get_touch impute_freqdist_def)

lemma values_impute_feature:
  "feature_values (impute_feature l n f c) f'
     = (if f' = f \<and> fd_N (get (l, f) (feature_freqdist c)) < n
        then insert None (feature_values c f') else feature_values c f')"
  by (simp add: impute_feature_def Let_def get_touch)

lemma keys_impute_feature:
  "fst ` set (feature_freqdist (impute_feature l n f c))
     = insert (l, f) (fst ` set (feature_freqdist c))"
  by (simp add: impute_feature_def Let_def keys_inc_at keys_touch)

lemma distinct_impute_feature:
  "distinct (map fst (feature_freqdist c)) \<Longrightarrow>
   distinct (map fst (feature_freqdist (impute_feature l n f c)))"
  by (simp add: impute_feature_def Let_def distinct_inc_at distinct_touch)

lemma fold_impute_feature_fields [simp]:
  "label_freqdist (fold (impute_feature l n) fs c) = label_freqdist c"
  "fnames (fold (impute_feature l n) fs c) = fnames c"
  by (induction fs arbitrary: c; simp)+

lemma get_fold_impute_feature:
  "distinct fs \<Longrightarrow>
   get (l', f') (feature_freqdist (fold (impute_feature l n) fs c))
     = (if l' = l \<and> f' \<in> set fs then impute_freqdist n (get (l', f') (feature_freqdist c))
        else get (l', f') (feature_freqdist c))"
proof (induction fs arbitrary: c)
  case Nil
  then show ?case by simp
next
  case (Cons f fs)
  then have "f \<notin> set fs" and "distinct fs" by simp_all
  with Cons.IH [of "impute_feature l n f c"] show ?case
    by (auto simp: get_impute_feature)
qed

lemma values_fold_impute_feature:
  "distinct fs \<Longrightarrow>
   feature_values (fold (impute_feature l n) fs c) f'
     = feature_values c f'
         \<union> (if f' \<in> set fs \<and> fd_N (get (l, f') (feature_freqdist c)) < n then {None} else {})"
proof (induction fs arbitrary: c)
  case Nil
  then show ?case by simp
next
  case (Cons f fs)
  then have "f \<notin> set fs" and "distinct fs" by simp_all
  with Cons.IH [of "impute_feature l n f c"] show ?case
    by (auto simp: get_impute_feature values_impute_feature)
qed

lemma keys_fold_impute_feature:
  "fst ` set (feature_freqdist (fold (impute_feature l n) fs c))
     = fst ` set (feature_freqdist c) \<union> Pair l ` set fs"
  by (induction fs arbitrary: c) (simp_all add: keys_impute_feature)

lemma distinct_fold_impute_feature:
  "distinct (map fst (feature_freqdist c)) \<Longrightarrow>
   distinct (map fst (feature_freqdist (fold (impute_feature l n) fs c)))"
  by (induction fs arbitrary: c) (simp_all add: distinct_impute_feature)

lemma impute_label_fields [simp]:
  "label_freqdist (impute_label l c) = label_freqdist c"
  "fnames (impute_label l c) = fnames c"
  by (simp_all add: impute_label_def Let_def)

lemma fold_impute_label_fields [simp]:
  "label_freqdist (fold impute_label ls c) = label_freqdist c"
  "fnames (fold impute_label ls c) = fnames c"
  by (induction ls arbitrary: c; simp)+

lemma get_impute_label:
  "distinct (fnames c) \<Longrightarrow>
   get (l', f') (feature_freqdist (impute_label l c))
     = (if l' = l \<and> f' \<in> set (fnames c)
        then impute_freqdist (freq (label_freqdist c) l) (get (l', f') (feature_freqdist c))
        else get (l', f') (feature_freqdist c))"
  by (simp add: impute_label_def Let_def get_fold_impute_feature)

lemma values_impute_label:
  "distinct (fnames c) \<Longrightarrow>
   feature_values (impute_label l c) f'
     = feature_values c f'
         \<union> (if f' \<in> set (fnames c)
               \<and> fd_N (get (l, f') (feature_freqdist c)) < freq (label_freqdist c) l
             then {None} else {})"
  by (simp add: impute_label_def Let_def values_fold_impute_feature)

lemma keys_impute_label:
  "fst ` set (feature_freqdist (impute_label l c))
     = fst ` set (feature_freqdist c) \<union> Pair l ` set (fnames c)"
  by (simp add: impute_label_def Let_def keys_fold_impute_feature)

lemma distinct_impute_label:
  "distinct (map fst (feature_freqdist c)) \<Longrightarrow>
   distinct (map fst (feature_freqdist (impute_label l c)))"
  by (simp add: impute_label_def Let_def distinct_fold_impute_feature)

lemma get_fold_impute_label:
  "distinct ls \<Longrightarrow> distinct (fnames c) \<Longrightarrow>
   get (l', f') (feature_freqdist (fold impute_label ls c))
     = (if l' \<in> set ls \<and> f' \<in> set (fnames c)
        then impute_freqdist (freq (label_freqdist c) l') (get (l', f') (feature_freqdist c))
        else get (l', f') (feature_freqdist c))"
proof (induction ls arbitrary: c)
  case Nil
  then show ?case by simp
next
  case (Cons l ls)
  then have l: "l \<notin> set ls" and "distinct ls" and "distinct (fnames (impute_label l c))"
    by simp_all
  then have "get (l', f') (feature_freqdist (fold impute_label ls (impute_label l c)))
     = (if l' \<in> set ls \<and> f' \<in> set (fnames c)
        then impute_freqdist (freq (label_freqdist c) l')
               (get (l', f') (feature_freqdist (impute_label l c)))
        else get (l', f') (feature_freqdist (impute_label l c)))"
    using Cons.IH [of "impute_label l c"] by simp
  with l Cons.prems(2) show ?case
    by (auto simp: get_impute_label)
qed

lemma values_fold_impute_label:
  "distinct ls \<Longrightarrow> distinct (fnames c) \<Longrightarrow>
   feature_values (fold impute_label ls c) f'
     = feature_values c f'
         \<union> (if f' \<in> set (fnames c)
               \<and> list_ex (\<lambda>l. fd_N (get (l, f') (feature_freqdist c)) < freq (label_freqdist c) l) ls
             then {None} else {})"
proof (induction ls arbitrary: c)
  case Nil
  then show ?case by simp
next
  case (Cons l ls)
  then have l: "l \<notin> set ls" and "distinct ls" and "distinct (fnames (impute_label l c))"
    by simp_all
  then have "feature_values (fold impute_label ls (impute_label l c)) f'
     = feature_values (impute_label l c) f'
         \<union> (if f' \<in> set (fnames c)
               \<and> list_ex (\<lambda>l'. fd_N (get (l', f') (feature_freqdist (impute_label l c)))
                                  < freq (label_freqdist c) l') ls
             then {None} else {})"
    using Cons.IH [of "impute_label l c"] by simp
  moreover have "list_ex (\<lambda>l'. fd_N (get (l', f') (feature_freqdist (impute_label l c)))
                                  < freq (label_freqdist c) l') ls
      = list_ex (\<lambda>l'. fd_N (get (l', f') (feature_freqdist c)) < freq (label_freqdist c) l') ls"
    unfolding list_ex_iff
    by (rule bex_cong [OF refl]) (use l Cons.prems(2) in \<open>auto simp: get_impute_label\<close>)
  ultimately show ?case
    using Cons.prems(2) by (simp add: values_impute_label Un_assoc) blast
qed

lemma keys_fold_impute_label:
  "fst ` set (feature_freqdist (fold impute_label ls c))
     = fst ` set (feature_freqdist c) \<union> set ls \<times> set (fnames c)"
proof (induction ls arbitrary: c)
  case Nil
  then show ?case by simp
next
  case (Cons l ls)
  have "fst ` set (feature_freqdist (fold impute_label ls (impute_label l c)))
      = (fst ` set (feature_freqdist c) \<union> Pair l ` set (fnames c)) \<union> set ls \<times> set (fnames c)"
    using Cons.IH [of "impute_label l c"] by (simp add: keys_impute_label)
  then show ?case
    by auto
qed

lemma distinct_fold_impute_label:
  "distinct (map fst (feature_freqdist c)) \<Longrightarrow>
   distinct (map fst (feature_freqdist (fold impute_label ls c)))"
  by (induction ls arbitrary: c) (simp_all add: distinct_impute_label)


section \<open>The counters after both loops\<close>

lemma counted_label_freqdist:
  "freq (label_freqdist (fold count_example xs empty_counts)) l = label_count xs l"
  "fst ` set (label_freqdist (fold count_example xs empty_counts)) = snd ` set xs"
  "distinct (map fst (label_freqdist (fold count_example xs empty_counts)))"
  "fd_N (label_freqdist (fold count_example xs empty_counts)) = length xs"
  by (simp_all add: count_example_fields empty_counts_def freq_count_labels keys_count_labels
        distinct_count_labels fd_N_count_labels freq_Nil fd_N_Nil)

lemma counted_feature_freqdist:
  "freq (get (l, f) (feature_freqdist (fold count_example xs empty_counts))) v = occurrences xs l f v"
  "fd_N (get (l, f) (feature_freqdist (fold count_example xs empty_counts))) = recorded xs l f"
  "fst ` set (get (l, f) (feature_freqdist (fold count_example xs empty_counts)))
     \<subseteq> observed_values xs f"
  "distinct (map fst (get (l, f) (feature_freqdist (fold count_example xs empty_counts))))"
  using keys_count_examples [of l f xs "[]"]
  by (simp_all add: count_example_fields empty_counts_def get_count_examples get_Nil
        freq_count_examples fd_N_count_examples distinct_count_examples freq_Nil fd_N_Nil)

lemma counted_table_keys:
  "fst ` set (feature_freqdist (fold count_example xs empty_counts))
     \<subseteq> snd ` set xs \<times> feature_names xs"
  "distinct (map fst (feature_freqdist (fold count_example xs empty_counts)))"
  using keys_count_table [of xs "[]"]
  by (simp_all add: count_example_fields empty_counts_def distinct_count_table)

lemma counted_values:
  "feature_values (fold count_example xs empty_counts) f = observed_values xs f"
  by (simp add: count_example_fields empty_counts_def values_count_examples)

lemma counted_names:
  "set (fnames (fold count_example xs empty_counts)) = feature_names xs"
  "distinct (fnames (fold count_example xs empty_counts))"
  by (simp_all add: count_example_fields empty_counts_def names_count_examples
        distinct_names_examples)

lemma freq_impute_freqdist:
  "freq (impute_freqdist n fd) v = freq fd v + (if v = None then n - fd_N fd else 0)"
  by (simp add: impute_freqdist_def freq_inc)

lemma fd_N_impute_freqdist:
  "fd_N (impute_freqdist n fd) = fd_N fd + (n - fd_N fd)"
  by (simp add: impute_freqdist_def fd_N_inc)

lemma keys_impute_freqdist:
  "fst ` set (impute_freqdist n fd) = fst ` set fd \<union> (if fd_N fd < n then {None} else {})"
  by (simp add: impute_freqdist_def keys_inc)

lemma distinct_impute_freqdist:
  "distinct (map fst fd) \<Longrightarrow> distinct (map fst (impute_freqdist n fd))"
  by (simp add: impute_freqdist_def distinct_inc)


lemma train_counts_get:
  "get (l, f) (feature_freqdist (train_counts xs))
     = (if l \<in> snd ` set xs \<and> f \<in> feature_names xs
        then impute_freqdist (label_count xs l)
               (get (l, f) (feature_freqdist (fold count_example xs empty_counts)))
        else get (l, f) (feature_freqdist (fold count_example xs empty_counts)))"
  unfolding train_counts_def impute_def
  by (subst get_fold_impute_label)
     (simp_all add: counted_label_freqdist counted_names)


lemma train_counts_freq:
  "l \<in> snd ` set xs \<Longrightarrow> f \<in> feature_names xs \<Longrightarrow>
   freq (get (l, f) (feature_freqdist (train_counts xs))) v = value_count xs l f v"
  by (simp add: train_counts_get freq_impute_freqdist counted_feature_freqdist
        value_count_def shortfall_def)

lemma train_counts_fd_N:
  "l \<in> snd ` set xs \<Longrightarrow> f \<in> feature_names xs \<Longrightarrow>
   fd_N (get (l, f) (feature_freqdist (train_counts xs))) = recorded xs l f + shortfall xs l f"
  by (simp add: train_counts_get fd_N_impute_freqdist counted_feature_freqdist shortfall_def)

lemma train_counts_keys:
  "fst ` set (feature_freqdist (train_counts xs)) = snd ` set xs \<times> feature_names xs"
  using counted_table_keys(1) [of xs]
  unfolding train_counts_def impute_def
  by (simp add: keys_fold_impute_label counted_label_freqdist counted_names) blast

lemma train_counts_distinct:
  "distinct (map fst (feature_freqdist (train_counts xs)))"
  unfolding train_counts_def impute_def
  by (rule distinct_fold_impute_label) (rule counted_table_keys)

lemma train_counts_values:
  "feature_values (train_counts xs) f
     = observed_values xs f
         \<union> (if f \<in> feature_names xs \<and> (\<exists>l \<in> snd ` set xs. recorded xs l f < label_count xs l)
             then {None} else {})"
  unfolding train_counts_def impute_def
  by (subst values_fold_impute_label)
     (simp_all add: counted_label_freqdist counted_names counted_values
        counted_feature_freqdist list_ex_iff)

lemma shortfall_somewhere:
  "list_ex (\<lambda>(fs, l). 0 < shortfall xs l f) xs
     = (\<exists>l \<in> snd ` set xs. recorded xs l f < label_count xs l)"
  by (force simp: list_ex_iff shortfall_def)

lemma train_counts_value_space:
  "f \<in> feature_names xs \<Longrightarrow> feature_values (train_counts xs) f = value_space xs f"
  by (simp add: train_counts_values value_space_def shortfall_somewhere)

lemma finite_observed_values: "finite (observed_values xs f)"
  unfolding observed_values_def by (rule finite_set)

lemma finite_train_counts_values: "finite (feature_values (train_counts xs) f)"
  by (simp add: train_counts_values finite_observed_values)

lemma train_counts_sample_keys:
  "fst ` set (get (l, f) (feature_freqdist (train_counts xs))) \<subseteq> feature_values (train_counts xs) f"
proof -
  let ?fd = "get (l, f) (feature_freqdist (fold count_example xs empty_counts))"
  have observed: "fst ` set ?fd \<subseteq> observed_values xs f"
    by (rule counted_feature_freqdist)
  show ?thesis
  proof (cases "l \<in> snd ` set xs \<and> f \<in> feature_names xs")
    case True
    then have "fst ` set (get (l, f) (feature_freqdist (train_counts xs)))
        = fst ` set ?fd \<union> (if recorded xs l f < label_count xs l then {None} else {})"
      by (simp add: train_counts_get keys_impute_freqdist counted_feature_freqdist)
    moreover have "recorded xs l f < label_count xs l \<Longrightarrow>
        None \<in> feature_values (train_counts xs) f"
      using True by (auto simp: train_counts_values)
    moreover have "observed_values xs f \<subseteq> feature_values (train_counts xs) f"
      by (simp add: train_counts_values)
    ultimately show ?thesis
      using observed by (auto split: if_splits)
  next
    case False
    then have "get (l, f) (feature_freqdist (train_counts xs)) = ?fd"
      by (auto simp: train_counts_get)
    moreover have "observed_values xs f \<subseteq> feature_values (train_counts xs) f"
      by (simp add: train_counts_values)
    ultimately show ?thesis
      using observed by auto
  qed
qed

lemma train_counts_sample_distinct:
  "distinct (map fst (get (l, f) (feature_freqdist (train_counts xs))))"
  by (simp add: train_counts_get distinct_impute_freqdist counted_feature_freqdist)

lemma train_counts_bins:
  "fd_B (get (l, f) (feature_freqdist (train_counts xs))) \<le> card (feature_values (train_counts xs) f)"
proof -
  let ?fd = "get (l, f) (feature_freqdist (train_counts xs))"
  have "fd_B ?fd = card (fst ` set ?fd)"
    using distinct_card [OF train_counts_sample_distinct [of l f xs]]
    by (simp add: fd_B_def)
  also have "\<dots> \<le> card (feature_values (train_counts xs) f)"
    by (rule card_mono [OF finite_train_counts_values train_counts_sample_keys])
  finally show ?thesis .
qed


section \<open>Fitting the distributions\<close>

lemma update_new_key: "k \<notin> fst ` set d \<Longrightarrow> AList.update k v d = d @ [(k, v)]"
  by (induction d) auto

lemma fold_update_distinct:
  "distinct (map fst d) \<Longrightarrow> fst ` set acc \<inter> fst ` set d = {} \<Longrightarrow>
   fold (\<lambda>(k, x). AList.update k (h k x)) d acc = acc @ map (\<lambda>(k, x). (k, h k x)) d"
proof (induction d arbitrary: acc)
  case Nil
  then show ?case by simp
next
  case (Cons a d)
  obtain k x where a: "a = (k, x)" by (cases a)
  from Cons.prems have new: "k \<notin> fst ` set acc" and d: "distinct (map fst d)"
    and rest: "fst ` set (acc @ [(k, h k x)]) \<inter> fst ` set d = {}"
    by (auto simp: a)
  show ?case
    by (simp add: a update_new_key [OF new] Cons.IH [OF d rest])
qed

lemma map_of_map_keyed:
  "map_of (map (\<lambda>(k, x). (k, h k x)) d) k = map_option (h k) (map_of d k)"
  by (induction d) auto

lemma fold_fit_feature:
  "(\<And>l f fd. ((l, f), fd) \<in> set d \<Longrightarrow> fd_B fd \<le> card (fv f)) \<Longrightarrow>
   fold (fit_feature fv) d (Inr acc)
     = Inr (fold (\<lambda>(k, fd). AList.update k (ele fd (card (fv (snd k))))) d acc)"
proof (induction d arbitrary: acc)
  case Nil
  then show ?case by simp
next
  case (Cons a d)
  obtain l f fd where a: "a = ((l, f), fd)" by (cases a) auto
  from Cons.prems [of l f fd] have "fd_B fd \<le> card (fv f)"
    by (simp add: a)
  then have "fit_feature fv a (Inr acc) = Inr (AList.update (l, f) (ele fd (card (fv f))) acc)"
    by (simp add: fit_feature_def a ELEProbDist_def)
  moreover have "fold (fit_feature fv) d (Inr acc')
      = Inr (fold (\<lambda>(k, fd). AList.update k (ele fd (card (fv (snd k))))) d acc')" for acc'
    using Cons.prems by (intro Cons.IH) auto
  ultimately show ?case
    by (simp add: a)
qed

lemma get_entry:
  "distinct (map fst d) \<Longrightarrow> (k, fd) \<in> set d \<Longrightarrow> get k d = fd"
  by (simp add: get_def)

lemma train_eq:
  "train xs =
     Inr (init (ele (label_freqdist (train_counts xs)) (fd_B (label_freqdist (train_counts xs))))
            (map (\<lambda>(k, fd). (k, ele fd (card (feature_values (train_counts xs) (snd k)))))
               (feature_freqdist (train_counts xs))))"
proof -
  let ?c = "train_counts xs"
  have bins: "fd_B fd \<le> card (feature_values ?c f)" if "((l, f), fd) \<in> set (feature_freqdist ?c)"
    for l f fd
    using train_counts_bins [of l f xs] get_entry [OF train_counts_distinct that] by simp
  have "fold (fit_feature (feature_values ?c)) (feature_freqdist ?c) (Inr [])
      = Inr (map (\<lambda>(k, fd). (k, ele fd (card (feature_values ?c (snd k))))) (feature_freqdist ?c))"
    by (subst fold_fit_feature [OF bins])
       (simp_all add: fold_update_distinct [OF train_counts_distinct])
  then show ?thesis
    by (simp add: train_def Let_def ELEProbDist_def)
qed


lemma train_counts_example:
  "label_freqdist (train_counts example_corpus) = [(''spam'', 2), (''ham'', 1)]"
  "feature_freqdist (train_counts example_corpus)
     = [((''spam'', ''w''), [(Some ''buy'', 2)]), ((''ham'', ''w''), [(Some ''hello'', 1)])]"
  "feature_values (train_counts example_corpus) ''w'' = {Some ''buy'', Some ''hello''}"
  by (simp_all add: train_counts_def example_corpus_def count_example_def count_feature_def
        inc_def freq_def impute_def impute_label_def impute_feature_def inc_at_def get_def
        touch_def set_add_def empty_counts_def fd_N_def insert_commute)

lemma train_example: "train example_corpus = Inr example_model"
  by (simp add: train_eq train_counts_example example_model_def fd_B_def numeral_2_eq_2)



section \<open>The score table of a model with distinct labels\<close>










section \<open>The trained model\<close>




lemma train_table:
  "train xs = Inr m \<Longrightarrow>
   map_of (feature_probdist m) (l, f)
     = (if l \<in> snd ` set xs \<and> f \<in> feature_names xs
        then Some (ele (get (l, f) (feature_freqdist (train_counts xs))) (card (value_space xs f)))
        else None)"
proof -
  assume "train xs = Inr m"
  then have table: "map_of (feature_probdist m) (l, f)
      = map_option (\<lambda>fd. ele fd (card (feature_values (train_counts xs) f)))
          (map_of (feature_freqdist (train_counts xs)) (l, f))"
    by (auto simp: train_eq init_def map_of_map_keyed)
  show ?thesis
  proof (cases "l \<in> snd ` set xs \<and> f \<in> feature_names xs")
    case True
    then have "(l, f) \<in> fst ` set (feature_freqdist (train_counts xs))"
      by (simp add: train_counts_keys)
    then obtain fd where fd: "map_of (feature_freqdist (train_counts xs)) (l, f) = Some fd"
      by (metis map_of_eq_None_iff not_Some_eq)
    then have "get (l, f) (feature_freqdist (train_counts xs)) = fd"
      by (simp add: get_def)
    with True fd show ?thesis
      by (simp add: table train_counts_value_space)
  next
    case False
    then have "(l, f) \<notin> fst ` set (feature_freqdist (train_counts xs))"
      by (simp add: train_counts_keys)
    then have "map_of (feature_freqdist (train_counts xs)) (l, f) = None"
      by (simp add: map_of_eq_None_iff)
    with False show ?thesis
      by (auto simp: table)
  qed
qed



lemma prob_ele:
  "prob (ele fd bins) v = (real (freq fd v) + 1 / 2) / (real (fd_N fd) + 1 / 2 * real bins)"
  by (simp add: ele_def ele_divisor_def)



text \<open>
  C7, as the code has it. Every conditional distribution of a trained model is the
  expected-likelihood estimate of its frequency table with the sample-space size
  \<open>bins\<close> equal to the number of distinct values the feature takes across all labels,
  \<open>None\<close> included when the imputation added it; the size is the same for every label
  of a feature name. The probability of a value is
  \<open>(count + 0.5) / (total + 0.5 * bins)\<close>, where the total is the number of values
  recorded for the feature under the label plus the shortfall: the denominator
  depends on the label through that total.
\<close>

theorem train_sample_space:
  assumes "train xs = Inr m" and "map_of (feature_probdist m) (l, f) = Some pd"
  shows "pd = ele (get (l, f) (feature_freqdist (train_counts xs))) (card (value_space xs f))
       \<and> (\<forall>v. prob pd v
              = (real (value_count xs l f v) + 1 / 2)
                  / (real (recorded xs l f + shortfall xs l f)
                       + 1 / 2 * real (card (value_space xs f))))
       \<and> (\<forall>l' pd'. map_of (feature_probdist m) (l', f) = Some pd' \<longrightarrow>
              (\<exists>fd. pd' = ele fd (card (value_space xs f))))"
proof (intro conjI allI impI)
  from assms have in_table: "l \<in> snd ` set xs \<and> f \<in> feature_names xs"
    by (simp add: train_table split: if_splits)
  with assms show pd: "pd = ele (get (l, f) (feature_freqdist (train_counts xs)))
      (card (value_space xs f))"
    by (simp add: train_table)
  show "prob pd v
      = (real (value_count xs l f v) + 1 / 2)
          / (real (recorded xs l f + shortfall xs l f) + 1 / 2 * real (card (value_space xs f)))"
    for v
    using in_table by (simp add: pd prob_ele train_counts_freq train_counts_fd_N)
  show "\<exists>fd. pd' = ele fd (card (value_space xs f))"
    if "map_of (feature_probdist m) (l', f) = Some pd'" for l' pd'
    using that assms(1) by (auto simp: train_table split: if_splits)
qed

lemma example_value_space: "value_space example_corpus ''w'' = {Some ''buy'', Some ''hello''}"
  by (auto simp: value_space_def observed_values_def shortfall_def label_count_def recorded_def
        example_corpus_def)

theorem train_sample_space_witness:
  "ele [(Some ''buy'', 2)] 2
     = ele (get (''spam'', ''w'') (feature_freqdist (train_counts example_corpus)))
         (card (value_space example_corpus ''w''))
   \<and> (\<exists>fd. ele [(Some ''hello'', 1)] 2 = ele fd (card (value_space example_corpus ''w'')))"
proof -
  have spam: "map_of (feature_probdist example_model) (''spam'', ''w'') = Some (ele [(Some ''buy'', 2)] 2)"
    and ham: "map_of (feature_probdist example_model) (''ham'', ''w'') = Some (ele [(Some ''hello'', 1)] 2)"
    by (simp_all add: example_table)
  from train_sample_space [OF train_example spam] ham show ?thesis
    by blast
qed

theorem train_denominator_counterexample:
  "train example_corpus = Inr example_model
   \<and> map_of (feature_probdist example_model) (''spam'', ''w'') = Some (ele [(Some ''buy'', 2)] 2)
   \<and> map_of (feature_probdist example_model) (''ham'', ''w'') = Some (ele [(Some ''hello'', 1)] 2)
   \<and> ele_divisor [(Some ''buy'', 2)] 2 = 3
   \<and> ele_divisor [(Some ''hello'', 1 :: nat)] 2 = 2
   \<and> prob (ele [(Some ''buy'', 2)] 2) (Some ''sale'') = 1 / 6
   \<and> prob (ele [(Some ''hello'', 1)] 2) (Some ''sale'') = 1 / 4"
  by (simp add: train_example example_table ele_divisor_def fd_N_def prob_ele freq_def)



section \<open>Reordering the training examples\<close>













section \<open>Scores depend on the probabilities only\<close>







section \<open>Normalisation does not depend on the order of the labels\<close>









section \<open>The ranking loop\<close>







section \<open>What the loop leaves\<close>




lemma finite_event_probs: "finite (snd ` {e \<in> set es. fst e = a})"
  by simp






section \<open>The ranking of a model with genuine probabilities\<close>








lemma length_slice_to: "0 \<le> n \<Longrightarrow> length (slice_to n xs) \<le> nat n"
  by (simp add: slice_to_def)

lemma sorted_wrt_slice_to: "sorted_wrt P xs \<Longrightarrow> sorted_wrt P (slice_to n xs)"
  by (simp add: slice_to_def)

section \<open>Trained models have genuine probabilities\<close>



section \<open>The most informative features\<close>










end
